theory Spec2Isabelle
  imports Main
begin

section \<open>JavaScript values and calls\<close>

text \<open>
  The values the bootstrapping code handles. Numbers are restricted to the integers and
  \<open>NaN\<close> (only their truthiness is ever inspected), strings are lists of code units below
  256. \<open>JArr\<close> is an array, \<open>JRec\<close> an object literal with own data properties in insertion
  order, \<open>JObj\<close> any other object (an opaque reference, e.g. the express app or an
  \<open>Error\<close> created by user code) and \<open>JFun\<close> a reference to a function value.
\<close>

datatype jsval =
    JUndefined
  | JNull
  | JBool bool
  | JNum int
  | JNaN
  | JStr string
  | JArr "jsval list"
  | JRec "(string \<times> jsval) list"
  | JObj nat
  | JFun nat

text \<open>ToBoolean, as applied by \<open>if (v)\<close>, \<open>v ? a : b\<close>, \<open>a && b\<close> and \<open>a || b\<close>.\<close>

fun truthy :: "jsval \<Rightarrow> bool" where
  "truthy JUndefined = False"
| "truthy JNull = False"
| "truthy (JBool b) = b"
| "truthy (JNum n) = (n \<noteq> 0)"
| "truthy JNaN = False"
| "truthy (JStr s) = (s \<noteq> [])"
| "truthy (JArr xs) = True"
| "truthy (JRec ps) = True"
| "truthy (JObj r) = True"
| "truthy (JFun r) = True"

text \<open>
  The \<open>Error\<close> objects created by the library itself (one constructor per
  \<open>throw new Error(...)\<close> of the sources, and \<open>TypeError\<close> for the engine's own failure of
  \<open>null[1]\<close>, of a property read on \<open>null\<close>/\<open>undefined\<close>, of calling a non-function and of
  redefining a non-configurable property).
\<close>

datatype liberror =
    TypeError
  | MustInvoke
  | AsyncNotInvokable
  | AsyncAdditionalParams
  | AccessedTooEarly
  | IncompleteInitializer jsval

text \<open>
  What can be thrown, or handed to a completion callback as its error argument: an
  \<open>Error\<close> object of the library, or any value coming from user code.
\<close>

datatype errval = ErrorObj liberror | Value jsval

fun isError :: "errval \<Rightarrow> bool" where
  "isError (ErrorObj e) = True"
| "isError (Value v) = truthy v"

text \<open>
  The observable result of calling a user function: it throws a value, or it returns a
  value; in the latter case \<open>Some e\<close> records that the call fires the completion callback
  it was handed (during the call or later) with error argument \<open>e\<close>, and \<open>None\<close> that it
  never fires it. A call that throws is taken not to fire the callback.
\<close>

datatype call_result = Return jsval "jsval option" | Throw jsval

text \<open>
  A function value: the text \<open>toString()\<close> gives for it, its \<open>exParamLength\<close> property
  (\<open>JUndefined\<close> unless the injector attached one) and what \<open>func.apply(thisArg, args)\<close>
  does.
\<close>

record callable =
  source :: string
  exParamLength :: jsval
  invoke :: "jsval \<Rightarrow> jsval list \<Rightarrow> call_result"

section \<open>utilities.getFunctionParameters\<close>

text \<open>The characters matched by \<open>\s\<close> and removed by \<open>trim()\<close>, among the code units below 256.\<close>

definition isWhiteSpace :: "char \<Rightarrow> bool" where
  "isWhiteSpace c \<longleftrightarrow>
     c = CHR 0x09 \<or> c = CHR 0x0A \<or> c = CHR 0x0B \<or> c = CHR 0x0C \<or> c = CHR 0x0D
     \<or> c = CHR 0x20 \<or> c = CHR 0xA0"

text \<open>The characters \<open>.\<close> does not match.\<close>

definition isLineTerminator :: "char \<Rightarrow> bool" where
  "isLineTerminator c \<longleftrightarrow> c = CHR 0x0A \<or> c = CHR 0x0D"

definition trim :: "string \<Rightarrow> string" where
  "trim s = rev (dropWhile isWhiteSpace (rev (dropWhile isWhiteSpace s)))"

text \<open>\<open>s.split(',')\<close>: the pieces between the commas, at least one.\<close>

fun split_comma :: "string \<Rightarrow> string list" where
  "split_comma [] = [[]]"
| "split_comma (c # cs) =
     (if c = CHR '','' then [] # split_comma cs
      else (case split_comma cs of [] \<Rightarrow> [[c]] | p # ps \<Rightarrow> (c # p) # ps))"

text \<open>
  \<open>str.match(/^\s*function\s*?\((.*?)\)/)\<close>: leading white space, the word \<open>function\<close>,
  white space, an opening parenthesis, then the shortest run of characters other than line
  terminators that is followed by a closing parenthesis. The result is the captured group,
  or \<open>None\<close> when the match is \<open>null\<close>.
\<close>

definition matchSignature :: "string \<Rightarrow> string option" where
  "matchSignature str =
     (let s1 = dropWhile isWhiteSpace str in
      if take 8 s1 = ''function'' then
        (case dropWhile isWhiteSpace (drop 8 s1) of
           [] \<Rightarrow> None
         | c # s2 \<Rightarrow>
             if c = CHR ''('' then
               (let grp = takeWhile (\<lambda>d. d \<noteq> CHR '')'' \<and> \<not> isLineTerminator d) s2 in
                case drop (length grp) s2 of
                  [] \<Rightarrow> None
                | d # s3 \<Rightarrow> if d = CHR '')'' then Some grp else None)
             else None)
      else None)"

definition getFunctionParameters :: "callable \<Rightarrow> errval + string list" where
  "getFunctionParameters func =
     (case matchSignature (source func) of
        None \<Rightarrow> Inl (ErrorObj TypeError)
      | Some grp \<Rightarrow>
          (let argString = trim grp in
           if length argString = 0 then Inr []
           else Inr (map trim (split_comma argString))))"

section \<open>utilities.determineAsync\<close>

text \<open>\<open>args.indexOf(x)\<close>: the first index of \<open>x\<close>, or \<open>-1\<close>.\<close>

fun indexOf :: "string list \<Rightarrow> string \<Rightarrow> int" where
  "indexOf [] x = -1"
| "indexOf (a # as) x =
     (if a = x then 0 else (let i = indexOf as x in if i = -1 then -1 else i + 1))"

text \<open>
  The result is the pair of the returned \<open>isAsync\<close> and whether \<open>console.warn\<close> was called.
  \<open>args.pop()\<close> runs only when \<open>args.length\<close> is not zero, and removes the last element
  before \<open>indexOf\<close> looks at the array.
\<close>

definition determineAsync :: "callable \<Rightarrow> errval + (bool \<times> bool)" where
  "determineAsync func =
     (case getFunctionParameters func of
        Inl e \<Rightarrow> Inl e
      | Inr args \<Rightarrow>
          (let isAsync = (length args \<noteq> 0 \<and> last args = ''done'');
               args' = (if length args \<noteq> 0 then butlast args else args);
               warned = (\<not> isAsync \<and> indexOf args' ''done'' + 1 \<noteq> 0)
           in Inr (isAsync, warned)))"

section \<open>injector.create\<close>

text \<open>
  The injection components are only ever read, by \<open>injectComponents[name]\<close>: a registry is
  the function from a name to what that read does (a getter may throw; a name that is not
  found gives \<open>undefined\<close>).
\<close>

type_synonym registry = "string \<Rightarrow> errval + jsval"

text \<open>
  The \<open>for\<close> loop: \<open>injectLoop reg rest injectArgs\<close> runs it on the parameters not yet
  visited and returns the final \<open>injectArgs\<close> with the parameters from index \<open>i\<close> on. The
  property is read once for the test and once more for \<open>push\<close>.
\<close>

fun injectLoop :: "registry \<Rightarrow> string list \<Rightarrow> jsval list \<Rightarrow> errval + (jsval list \<times> string list)" where
  "injectLoop reg [] injectArgs = Inr (injectArgs, [])"
| "injectLoop reg (a # as) injectArgs =
     (case reg a of
        Inl e \<Rightarrow> Inl e
      | Inr v \<Rightarrow>
          if truthy v then
            (case reg a of
               Inl e \<Rightarrow> Inl e
             | Inr v' \<Rightarrow> injectLoop reg as (injectArgs @ [v']))
          else Inr (injectArgs, a # as))"

text \<open>What \<open>inject(func, mustInvoke)\<close> returns: the value the function returned, or the wrapper.\<close>

datatype inject_result = Returned jsval | Wrapper callable

text \<open>
  The wrapper declares no parameters (of its text only the parameter list is ever
  inspected, so the body is left out), carries \<open>exParamLength\<close>, ignores its own \<open>this\<close> and
  passes all its arguments on after the injected ones.
\<close>

definition wrapper :: "jsval \<Rightarrow> callable \<Rightarrow> jsval list \<Rightarrow> nat \<Rightarrow> callable" where
  "wrapper ctx func injectArgs n =
     \<lparr> source = ''function() {}'',
       exParamLength = JNum (int n),
       invoke = (\<lambda>this arguments. invoke func ctx (injectArgs @ arguments)) \<rparr>"

definition create :: "jsval \<Rightarrow> registry \<Rightarrow> callable \<Rightarrow> jsval \<Rightarrow> errval + inject_result" where
  "create ctx injectComponents func mustInvoke =
     (case getFunctionParameters func of
        Inl e \<Rightarrow> Inl e
      | Inr args \<Rightarrow>
          (case injectLoop injectComponents args [] of
             Inl e \<Rightarrow> Inl e
           | Inr (injectArgs, rest) \<Rightarrow>
               if length rest \<noteq> 0 then
                 (if truthy mustInvoke then Inl (ErrorObj MustInvoke)
                  else Inr (Wrapper (wrapper ctx func injectArgs (length rest))))
               else
                 (case invoke func ctx injectArgs of
                    Throw e \<Rightarrow> Inl (Value e)
                  | Return v fired \<Rightarrow> Inr (Returned v))))"

section \<open>util.injectDependencies\<close>

text \<open>
  The older form of the injector: the same loop and the same branches, with \<open>umbrella.app\<close>
  (here \<open>app\<close>) as the context.
\<close>

definition injectDependencies :: "callable \<Rightarrow> jsval \<Rightarrow> registry \<Rightarrow> jsval \<Rightarrow> errval + inject_result" where
  "injectDependencies func app injectComponents mustInvoke =
     (case getFunctionParameters func of
        Inl e \<Rightarrow> Inl e
      | Inr args \<Rightarrow>
          (case injectLoop injectComponents args [] of
             Inl e \<Rightarrow> Inl e
           | Inr (injectArgs, rest) \<Rightarrow>
               if length rest \<noteq> 0 then
                 (if truthy mustInvoke then Inl (ErrorObj MustInvoke)
                  else Inr (Wrapper (wrapper app func injectArgs (length rest))))
               else
                 (case invoke func app injectArgs of
                    Throw e \<Rightarrow> Inl (Value e)
                  | Return v fired \<Rightarrow> Inr (Returned v))))"

section \<open>utilities.createInjectionComponents\<close>

text \<open>
  An object as the code observes it: \<open>Object.keys(o)\<close> (each key once) and the read
  \<open>o[name]\<close>, which gives \<open>JUndefined\<close> for a name that is not found.
\<close>

record jsobject =
  ownKeys :: "string list"
  field :: "string \<Rightarrow> jsval"

text \<open>
  The object \<open>obj\<close> under construction: the names that got the getter of an external
  component, and the keys \<open>key\<close> whose name \<open>'$' + key\<close> got the getter of an internal one.
\<close>

record components =
  externalKeys :: "string list"
  internalKeys :: "string list"

text \<open>
  The read \<open>obj[name]\<close>. The getters read \<open>externalComponents\<close> and \<open>internalComponents\<close>
  when they are called, so the read depends on what these objects hold at that moment
  (\<open>externals\<close>, \<open>internals\<close>); \<open>proto\<close> is the read of a name \<open>obj\<close> does not define itself, which
  falls through to \<open>Object.prototype\<close>.
\<close>

definition componentsGet ::
  "(string \<Rightarrow> jsval) \<Rightarrow> components \<Rightarrow> jsobject \<Rightarrow> jsobject \<Rightarrow> registry" where
  "componentsGet proto obj externals internals name =
     (if name \<in> set (externalKeys obj) then Inr (field externals name)
      else
        (case name of
           [] \<Rightarrow> Inr (proto name)
         | c # key \<Rightarrow>
             if c = CHR ''$'' \<and> key \<in> set (internalKeys obj) then
               (if field internals key = JNull then Inl (ErrorObj AccessedTooEarly)
                else Inr (field internals key))
             else Inr (proto name)))"

text \<open>
  The second \<open>forEach\<close>, with the list of warned keys. \<open>Object.defineProperty\<close> throws a
  \<open>TypeError\<close> when the name already has a (non-configurable) getter, which happens when an
  external component of that name holds \<open>undefined\<close>.
\<close>

fun defineInternals ::
  "(string \<Rightarrow> jsval) \<Rightarrow> jsobject \<Rightarrow> jsobject \<Rightarrow> string list \<Rightarrow> components \<Rightarrow> string list
     \<Rightarrow> errval + (components \<times> string list)" where
  "defineInternals proto externals internals [] obj warned = Inr (obj, warned)"
| "defineInternals proto externals internals (key # rest) obj warned =
     (let actKey = CHR ''$'' # key in
      case componentsGet proto obj externals internals actKey of
        Inl e \<Rightarrow> Inl e
      | Inr v \<Rightarrow>
          if v = JUndefined then
            (if actKey \<in> set (externalKeys obj) \<or> key \<in> set (internalKeys obj)
             then Inl (ErrorObj TypeError)
             else defineInternals proto externals internals rest
                    (obj\<lparr>internalKeys := internalKeys obj @ [key]\<rparr>) warned)
          else defineInternals proto externals internals rest obj (warned @ [key]))"

definition createInjectionComponents ::
  "(string \<Rightarrow> jsval) \<Rightarrow> jsobject \<Rightarrow> jsobject \<Rightarrow> errval + (components \<times> string list)" where
  "createInjectionComponents proto externalComponents internalComponents =
     defineInternals proto externalComponents internalComponents (ownKeys internalComponents)
       \<lparr> externalKeys = ownKeys externalComponents, internalKeys = [] \<rparr> []"

text \<open>
  An object literal used as the injection components, as the tests do: its own properties
  first, then \<open>Object.prototype\<close>.
\<close>

definition getProperty :: "(string \<Rightarrow> jsval) \<Rightarrow> (string \<times> jsval) list \<Rightarrow> string \<Rightarrow> jsval" where
  "getProperty proto props name = (case map_of props name of Some v \<Rightarrow> v | None \<Rightarrow> proto name)"

definition objectRegistry :: "(string \<Rightarrow> jsval) \<Rightarrow> (string \<times> jsval) list \<Rightarrow> registry" where
  "objectRegistry proto props name = Inr (getProperty proto props name)"

section \<open>initializer: one step\<close>

text \<open>
  What a step does with the completion callback it is called with.
  \<^item> \<open>Signalled x\<close>: the callback is called with the error argument \<open>x\<close>, once, and not
    from inside a \<open>try\<close> block of the step, so that an exception of the callback leaves the
    step.
  \<^item> \<open>SignalledTwice x e\<close>: the step calls the callback with \<open>x\<close> inside its \<open>try\<close> block, the
    call throws \<open>e\<close>, and the \<open>catch\<close> block calls the callback again, with \<open>e\<close>.
  \<^item> \<open>Escaped e\<close>: the step lets the exception \<open>e\<close> escape to its caller and the callback
    is not called.
  \<^item> \<open>Pending\<close>: the step returns and the callback is never called.
\<close>

datatype step_outcome =
    Signalled errval
  | SignalledTwice errval errval
  | Escaped errval
  | Pending

type_synonym injector = "callable \<Rightarrow> jsval \<Rightarrow> errval + inject_result"
type_synonym step = "jsval \<Rightarrow> step_outcome"

text \<open>
  \<open>typeof r === 'function'\<close> for what the injector returned, with the function then at
  hand; \<open>funs\<close> gives the function a reference \<open>JFun r\<close> denotes.
\<close>

fun asFunction :: "(nat \<Rightarrow> callable) \<Rightarrow> inject_result \<Rightarrow> callable option" where
  "asFunction funs (Wrapper w) = Some w"
| "asFunction funs (Returned (JFun r)) = Some (funs r)"
| "asFunction funs (Returned v) = None"

text \<open>
  What the call \<open>callback(null)\<close> throws, if anything: a value that is not a function cannot
  be called, and a function does what the store \<open>funs\<close> has for its reference.
\<close>

definition callbackThrows :: "(nat \<Rightarrow> callable) \<Rightarrow> jsval \<Rightarrow> errval option" where
  "callbackThrows funs callback =
     (case callback of
        JFun r \<Rightarrow>
          (case invoke (funs r) JUndefined [JNull] of
             Throw e \<Rightarrow> Some (Value e)
           | Return v fired \<Rightarrow> None)
      | _ \<Rightarrow> Some (ErrorObj TypeError))"

text \<open>
  The \<open>try\<close> block once the initializer has returned: \<open>callback(null)\<close> stands inside it, so
  what that call throws is caught and handed to the callback in turn.
\<close>

definition callbackNull :: "(nat \<Rightarrow> callable) \<Rightarrow> jsval \<Rightarrow> step_outcome" where
  "callbackNull funs callback =
     (case callbackThrows funs callback of
        None \<Rightarrow> Signalled (Value JNull)
      | Some e \<Rightarrow> SignalledTwice (Value JNull) e)"

text \<open>The outcome of a call that was handed the completion callback and is not guarded.\<close>

fun completion :: "call_result \<Rightarrow> step_outcome" where
  "completion (Throw e) = Escaped (Value e)"
| "completion (Return v (Some e)) = Signalled (Value e)"
| "completion (Return v None) = Pending"

definition createInitializerFunction :: "(nat \<Rightarrow> callable) \<Rightarrow> injector \<Rightarrow> callable \<Rightarrow> step" where
  "createInitializerFunction funs inject initializer callback =
     (case determineAsync initializer of
        Inl e \<Rightarrow> Escaped e
      | Inr (isAsync, warned) \<Rightarrow>
          if isAsync then
            (case inject initializer (JBool False) of
               Inl e \<Rightarrow> Escaped e
             | Inr asyncInit \<Rightarrow>
                 (case asFunction funs asyncInit of
                    None \<Rightarrow> Signalled (ErrorObj AsyncNotInvokable)
                  | Some f \<Rightarrow>
                      if exParamLength f \<noteq> JNum 1 then Signalled (ErrorObj AsyncAdditionalParams)
                      else completion (invoke f JUndefined [callback])))
          else
            (case inject initializer (JBool True) of
               Inl err \<Rightarrow> Signalled err
             | Inr r \<Rightarrow> callbackNull funs callback))"

section \<open>initializer: the pipeline\<close>

text \<open>
  What \<open>require\<close> loads, and what a property of it holds: a function, or another value. A
  module is the loaded value with its \<open>production\<close> and \<open>development\<close> properties
  (\<open>NotFunction JUndefined\<close> when it has none).
\<close>

datatype loaded = IsFunction callable | NotFunction jsval

record module =
  self :: loaded
  production :: loaded
  development :: loaded

fun truthyLoaded :: "loaded \<Rightarrow> bool" where
  "truthyLoaded (IsFunction f) = True"
| "truthyLoaded (NotFunction v) = truthy v"

fun nullish :: "loaded \<Rightarrow> bool" where
  "nullish (NotFunction JUndefined) = True"
| "nullish (NotFunction JNull) = True"
| "nullish l = False"

text \<open>
  \<open>initializer.production || initializer\<close>, or the same with \<open>development\<close>; reading a
  property of \<open>null\<close> or \<open>undefined\<close> throws.
\<close>

definition selectVariant :: "jsval \<Rightarrow> module \<Rightarrow> errval + loaded" where
  "selectVariant env m =
     (if nullish (self m) then Inl (ErrorObj TypeError)
      else
        (let variant = (if env = JStr ''production'' then production m else development m)
         in Inr (if truthyLoaded variant then variant else self m)))"

text \<open>
  The read \<open>d.name\<close> of a descriptor, for the names \<open>component\<close> and \<open>dependencies\<close>: an
  object literal gives its own property or \<open>undefined\<close>, \<open>null\<close> and \<open>undefined\<close> throw, and
  every other value is taken not to define these names.
\<close>

fun readProperty :: "jsval \<Rightarrow> string \<Rightarrow> errval + jsval" where
  "readProperty JUndefined name = Inl (ErrorObj TypeError)"
| "readProperty JNull name = Inl (ErrorObj TypeError)"
| "readProperty (JRec props) name = Inr (case map_of props name of Some v \<Rightarrow> v | None \<Rightarrow> JUndefined)"
| "readProperty v name = Inr JUndefined"

text \<open>\<open>array.map(f)\<close> where \<open>f\<close> may throw: the first exception ends the traversal.\<close>

fun mapE :: "('a \<Rightarrow> errval + 'b) \<Rightarrow> 'a list \<Rightarrow> errval + 'b list" where
  "mapE f [] = Inr []"
| "mapE f (x # xs) =
     (case f x of
        Inl e \<Rightarrow> Inl e
      | Inr y \<Rightarrow> (case mapE f xs of Inl e \<Rightarrow> Inl e | Inr ys \<Rightarrow> Inr (y # ys)))"

text \<open>
  \<open>require\<close> is a parameter: \<open>require base component\<close> stands for
  \<open>require(initializerBasePath + initDescriptor.component)\<close>.
\<close>

type_synonym loader = "string \<Rightarrow> jsval \<Rightarrow> errval + module"

definition processInitializer ::
  "(nat \<Rightarrow> callable) \<Rightarrow> loader \<Rightarrow> jsval \<Rightarrow> string \<Rightarrow> injector \<Rightarrow> jsval \<Rightarrow> errval + step" where
  "processInitializer funs require env initializerBasePath inject initDescriptor =
     (case readProperty initDescriptor ''component'' of
        Inl e \<Rightarrow> Inl e
      | Inr component \<Rightarrow>
          (case require initializerBasePath component of
             Inl e \<Rightarrow> Inl e
           | Inr m \<Rightarrow>
               (case selectVariant env m of
                  Inl e \<Rightarrow> Inl e
                | Inr (NotFunction v) \<Rightarrow> Inl (ErrorObj (IncompleteInitializer component))
                | Inr (IsFunction initializer) \<Rightarrow>
                    Inr (createInitializerFunction funs inject initializer))))"

text \<open>\<open>inject(umbrellaInit, true).map(func)\<close>; only an array has \<open>map\<close>.\<close>

definition initAndMapInitializers ::
  "callable \<Rightarrow> injector \<Rightarrow> (jsval \<Rightarrow> errval + step) \<Rightarrow> errval + step list" where
  "initAndMapInitializers umbrellaInit inject func =
     (case inject umbrellaInit (JBool True) of
        Inl e \<Rightarrow> Inl e
      | Inr (Returned (JArr descriptors)) \<Rightarrow> mapE func descriptors
      | Inr r \<Rightarrow> Inl (ErrorObj TypeError))"

text \<open>
  How a run of the pipeline ends: the completion function is called without an error
  (\<open>Done\<close>) or with the error of a step (\<open>Failed\<close>), it is never called because a step never
  fired its callback (\<open>Stalled\<close>), or an exception reached the caller (\<open>Aborted\<close>).
  \<open>Unspecified\<close> stands for a run in which a step called its callback a second time, of
  which the spec says nothing.
\<close>

datatype pipeline_outcome = Done | Failed errval | Stalled | Aborted errval | Unspecified

text \<open>
  Modelled from the spec: \<open>async.series\<close> of the \<open>async\<close> package, which is not part of the
  sources. The spec (4.4, 5) has the steps processed strictly in sequence, index 0 first; a
  step starts only after the previous step's callback has fired without an error; the first
  step whose completion signal carries an error ends the run with that error and no further
  step is run; the overall completion is reported once. \<open>series i steps callback\<close> runs
  the steps that remain from index \<open>i\<close> on and returns the indices of the steps it started,
  in the order it started them, with the way the run ends. The spec has each step signal
  its completion once; a step that calls its callback twice ends the run as \<open>Unspecified\<close>.
\<close>

fun series :: "nat \<Rightarrow> step list \<Rightarrow> jsval \<Rightarrow> nat list \<times> pipeline_outcome" where
  "series i [] callback = ([], Done)"
| "series i (s # ss) callback =
     (case s callback of
        Signalled err \<Rightarrow>
          if isError err then ([i], Failed err)
          else (case series (Suc i) ss callback of (started, out) \<Rightarrow> (i # started, out))
      | SignalledTwice err e \<Rightarrow> ([i], Unspecified)
      | Escaped e \<Rightarrow> ([i], Aborted e)
      | Pending \<Rightarrow> ([i], Stalled))"

text \<open>
  The exported function of the initializer module. \<open>callback\<close> here is the function value
  \<open>async.series\<close> hands to each step; the caller's completion function receives the
  outcome.
\<close>

definition initializer_exports ::
  "(nat \<Rightarrow> callable) \<Rightarrow> loader \<Rightarrow> jsval \<Rightarrow> callable \<Rightarrow> string \<Rightarrow> injector \<Rightarrow> jsval
     \<Rightarrow> nat list \<times> pipeline_outcome" where
  "initializer_exports funs require env umbrellaInit initializerBasePath inject callback =
     (case initAndMapInitializers umbrellaInit inject
             (processInitializer funs require env initializerBasePath inject) of
        Inl e \<Rightarrow> ([], Aborted e)
      | Inr initializers \<Rightarrow> series 0 initializers callback)"

section \<open>umbrella.init\<close>

text \<open>
  \<open>Array.isArray(d) ? d : (d ? [d] : [])\<close> for \<open>d = initDescriptor.dependencies\<close>
  (\<open>JUndefined\<close> when the descriptor has no such field).
\<close>

definition initArgs :: "jsval \<Rightarrow> jsval list" where
  "initArgs dependencies =
     (case dependencies of
        JArr xs \<Rightarrow> xs
      | _ \<Rightarrow> if truthy dependencies then [dependencies] else [])"

text \<open>
  The function returned for one descriptor, \<open>async\<close> being the result of \<open>determineAsync\<close>.
  It holds the array \<open>initArgs\<close>, which is the descriptor's own array when \<open>dependencies\<close> is
  an array, and which lives on between calls: \<open>args\<close> is what that array holds when the
  function is called, and the second component of the result is what it holds afterwards.
  An asynchronous step pushes its callback onto the array before the call, so whoever
  calls the step again, or calls another step that holds the same array, has to pass on
  the contents this call left.
\<close>

definition initStep ::
  "(nat \<Rightarrow> callable) \<Rightarrow> jsval \<Rightarrow> callable \<Rightarrow> bool \<Rightarrow> jsval list \<Rightarrow> jsval
     \<Rightarrow> step_outcome \<times> jsval list" where
  "initStep funs app initializer async args callback =
     (if async then
        (completion (invoke initializer app (args @ [callback])), args @ [callback])
      else
        ((case invoke initializer app args of
            Throw err \<Rightarrow> Signalled (Value err)
          | Return v fired \<Rightarrow> callbackNull funs callback),
         args))"

text \<open>
  The function mapped over the descriptors: it returns the step with the contents of the
  array the step holds at that moment.
\<close>

definition initDescriptorStep ::
  "(nat \<Rightarrow> callable) \<Rightarrow> loader \<Rightarrow> jsval \<Rightarrow> string \<Rightarrow> jsval \<Rightarrow> jsval
     \<Rightarrow> errval + ((jsval list \<Rightarrow> jsval \<Rightarrow> step_outcome \<times> jsval list) \<times> jsval list)" where
  "initDescriptorStep funs require env initBase app initDescriptor =
     (case readProperty initDescriptor ''component'' of
        Inl e \<Rightarrow> Inl e
      | Inr component \<Rightarrow>
          (case require initBase component of
             Inl e \<Rightarrow> Inl e
           | Inr m \<Rightarrow>
               (case selectVariant env m of
                  Inl e \<Rightarrow> Inl e
                | Inr (NotFunction v) \<Rightarrow> Inl (ErrorObj (IncompleteInitializer component))
                | Inr (IsFunction initializer) \<Rightarrow>
                    (case determineAsync initializer of
                       Inl e \<Rightarrow> Inl e
                     | Inr (async, warned) \<Rightarrow>
                         (case readProperty initDescriptor ''dependencies'' of
                            Inl e \<Rightarrow> Inl e
                          | Inr dependencies \<Rightarrow>
                              Inr (initStep funs app initializer async,
                                   initArgs dependencies))))))"

section \<open>Inputs for the examples\<close>

text \<open>A prototype that defines no name, and a function that returns its \<open>this\<close> and arguments.\<close>

definition noPrototype :: "string \<Rightarrow> jsval" where
  "noPrototype name = JUndefined"

definition echo :: "string \<Rightarrow> callable" where
  "echo src =
     \<lparr> source = src, exParamLength = JUndefined,
       invoke = (\<lambda>this args. Return (JArr (this # args)) None) \<rparr>"

text \<open>An object with the given own properties, as \<open>Object.keys\<close> and reads see it.\<close>

definition objectOf :: "(string \<times> jsval) list \<Rightarrow> jsobject" where
  "objectOf props = \<lparr> ownKeys = map fst props, field = getProperty noPrototype props \<rparr>"

text \<open>
  A function that throws the given value, and one that returns \<open>undefined\<close> and fires the
  completion callback it was handed with the given error argument.
\<close>

definition throwing :: "string \<Rightarrow> jsval \<Rightarrow> callable" where
  "throwing src e =
     \<lparr> source = src, exParamLength = JUndefined, invoke = (\<lambda>this args. Throw e) \<rparr>"

definition firing :: "string \<Rightarrow> jsval \<Rightarrow> callable" where
  "firing src e =
     \<lparr> source = src, exParamLength = JUndefined,
       invoke = (\<lambda>this args. Return JUndefined (Some e)) \<rparr>"

text \<open>A store of function values in which every reference denotes \<open>function () {}\<close>.\<close>

definition anyFunction :: "nat \<Rightarrow> callable" where
  "anyFunction r = echo ''function () {}''"

text \<open>A store in which every reference denotes a function that throws \<open>'late'\<close>.\<close>

definition lateThrower :: "nat \<Rightarrow> callable" where
  "lateThrower r = throwing ''function (err) {}'' (JStr ''late'')"

text \<open>
  Three initializer modules: \<open>a\<close> is a synchronous function, \<open>b\<close> has a production and a
  development variant, both asynchronous and both firing the callback with an error, and
  \<open>c\<close> is a synchronous function. Loading anything else throws.
\<close>

definition exampleModules :: loader where
  "exampleModules base component =
     (if component = JStr ''a'' then
        Inr \<lparr> self = IsFunction (echo ''function (db) {}''),
              production = NotFunction JUndefined, development = NotFunction JUndefined \<rparr>
      else if component = JStr ''b'' then
        Inr \<lparr> self = NotFunction (JRec []),
              production = IsFunction (firing ''function (db, done) {}'' (JStr ''down'')),
              development = IsFunction (firing ''function (db, done) {}'' (JStr ''boom'')) \<rparr>
      else if component = JStr ''c'' then
        Inr \<lparr> self = IsFunction (echo ''function () {}''),
              production = NotFunction JUndefined, development = NotFunction JUndefined \<rparr>
      else Inl (Value (JObj 404)))"

text \<open>An ordering function that returns the descriptors of \<open>a\<close>, \<open>b\<close> and \<open>c\<close>.\<close>

definition exampleOrder :: callable where
  "exampleOrder =
     \<lparr> source = ''function () {}'', exParamLength = JUndefined,
       invoke = (\<lambda>this args.
         Return (JArr [JRec [(''component'', JStr ''a'')], JRec [(''component'', JStr ''b'')],
                       JRec [(''component'', JStr ''c'')]]) None) \<rparr>"

section \<open>The injector's loop\<close>

text \<open>
  When the reads of the first \<open>k\<close> parameters give truthy values and the read of
  parameter \<open>k\<close> gives a falsy one, the loop stops there with exactly those values.
\<close>

lemma injectLoop_stops:
  "map reg (take k ps) = map Inr vs \<Longrightarrow> \<forall>v\<in>set vs. truthy v \<Longrightarrow> k < length ps \<Longrightarrow>
   reg (ps ! k) = Inr u \<Longrightarrow> \<not> truthy u \<Longrightarrow>
   injectLoop reg ps acc = Inr (acc @ vs, drop k ps)"
proof (induction ps arbitrary: k vs acc)
  case Nil
  then show ?case by simp
next
  case (Cons a as)
  show ?case
  proof (cases k)
    case 0
    with Cons.prems show ?thesis by simp
  next
    case (Suc j)
    with Cons.prems obtain v vs' where vs: "vs = v # vs'" and a: "reg a = Inr v"
      and rest: "map reg (take j as) = map Inr vs'"
      by (cases vs) auto
    from Cons.prems vs have tv: "truthy v" and tvs: "\<forall>v\<in>set vs'. truthy v" by auto
    from Cons.prems Suc have j: "j < length as" and u: "reg (as ! j) = Inr u" by auto
    have "injectLoop reg as (acc @ [v]) = Inr ((acc @ [v]) @ vs', drop j as)"
      using Cons.IH [OF rest tvs j u Cons.prems(5)] .
    with a tv vs Suc show ?thesis by simp
  qed
qed

lemma injectLoop_all:
  "map reg ps = map Inr vs \<Longrightarrow> \<forall>v\<in>set vs. truthy v \<Longrightarrow>
   injectLoop reg ps acc = Inr (acc @ vs, [])"
proof (induction ps arbitrary: vs acc)
  case Nil
  then show ?case by simp
next
  case (Cons a as)
  then obtain v vs' where vs: "vs = v # vs'" and a: "reg a = Inr v"
    and rest: "map reg as = map Inr vs'"
    by (cases vs) auto
  from Cons.prems vs have tv: "truthy v" and tvs: "\<forall>v\<in>set vs'. truthy v" by auto
  have "injectLoop reg as (acc @ [v]) = Inr ((acc @ [v]) @ vs', [])"
    using Cons.IH [OF rest tvs] .
  with a tv vs show ?case by simp
qed

lemma injectLoop_result:
  "injectLoop reg ps acc = Inr (ia, rest) \<Longrightarrow>
   \<exists>vs. ia = acc @ vs \<and> rest = drop (length vs) ps \<and> length vs \<le> length ps
      \<and> map reg (take (length vs) ps) = map Inr vs \<and> (\<forall>v\<in>set vs. truthy v)
      \<and> (rest \<noteq> [] \<longrightarrow> (\<exists>u. reg (hd rest) = Inr u \<and> \<not> truthy u))"
proof (induction ps arbitrary: acc)
  case Nil
  then show ?case by simp
next
  case (Cons a as)
  show ?case
  proof (cases "reg a")
    case (Inl e)
    with Cons.prems show ?thesis by simp
  next
    case (Inr v)
    show ?thesis
    proof (cases "truthy v")
      case False
      with Inr Cons.prems show ?thesis by auto
    next
      case True
      with Inr Cons.prems have "injectLoop reg as (acc @ [v]) = Inr (ia, rest)" by simp
      from Cons.IH [OF this] obtain vs where
        vs: "ia = (acc @ [v]) @ vs" "rest = drop (length vs) as" "length vs \<le> length as"
            "map reg (take (length vs) as) = map Inr vs" "\<forall>v\<in>set vs. truthy v"
            "rest \<noteq> [] \<longrightarrow> (\<exists>u. reg (hd rest) = Inr u \<and> \<not> truthy u)"
        by blast
      show ?thesis
        by (rule exI [of _ "v # vs"]) (use vs Inr True in simp)
    qed
  qed
qed

lemma injectLoop_never_past:
  assumes "injectLoop reg ps [] = Inr (ia, rest)" and "p < length ps"
    and "reg (ps ! p) = Inr u" and "\<not> truthy u"
  shows "length ia \<le> p \<and> rest = drop (length ia) ps"
proof -
  from injectLoop_result [OF assms(1)] obtain vs where
    vs: "ia = vs" "rest = drop (length vs) ps" "length vs \<le> length ps"
        "map reg (take (length vs) ps) = map Inr vs" "\<forall>v\<in>set vs. truthy v"
    by auto
  have "length vs \<le> p"
  proof (rule ccontr)
    assume "\<not> length vs \<le> p"
    then have lt: "p < length vs" by simp
    from vs(4) have "map reg (take (length vs) ps) ! p = map Inr vs ! p" by simp
    with lt vs(3) assms(2) have "reg (ps ! p) = Inr (vs ! p)" by simp
    with assms(3) have "u = vs ! p" by simp
    with vs(5) lt assms(4) show False by auto
  qed
  with vs show ?thesis by simp
qed

lemma injectLoop_as_if_absent:
  "reg n = Inr u \<Longrightarrow> \<not> truthy u \<Longrightarrow>
   injectLoop (reg(n := Inr JUndefined)) ps acc = injectLoop reg ps acc"
  by (induction ps arbitrary: acc) (auto split: sum.splits)

lemma injectDependencies_create:
  "injectDependencies func app reg mustInvoke = create app reg func mustInvoke"
  by (simp add: injectDependencies_def create_def)

lemmas eval_defs = getFunctionParameters_def matchSignature_def isWhiteSpace_def
  isLineTerminator_def trim_def echo_def noPrototype_def objectRegistry_def getProperty_def
  objectOf_def throwing_def firing_def anyFunction_def lateThrower_def callbackThrows_def
  callbackNull_def

section \<open>Greedy prefix match\<close>

text \<open>
  Claim C1, as amended. Dependency resolution is a greedy prefix match: the parameters are
  scanned left to right and matching stops at the first parameter whose name is not found
  in the registry or is bound there to a falsy value (the read gives \<open>u\<close> with
  \<open>\<not> truthy u\<close>; a name that is not found reads \<open>undefined\<close>). The injected arguments are
  exactly the values \<open>vs\<close> of the \<open>k\<close> parameters before it and the residual parameters are
  all those from position \<open>k\<close> on, whatever the registry holds for the names after the gap:
  any registry \<open>reg'\<close> that reads the same up to position \<open>k\<close> gives the same result, so a
  later name is never resolved even if it exists in the registry. With \<open>k = 0\<close> this is the
  case of a callable \<open>(x, depInRegistry, y)\<close>: zero dependencies are resolved and the wrapper
  has three residual parameters. \<open>util.injectDependencies\<close> does the same.
\<close>

theorem greedy_prefix_match:
  assumes "getFunctionParameters func = Inr args"
    and "k < length args"
    and "map reg (take k args) = map Inr vs" and "\<forall>v\<in>set vs. truthy v"
    and "reg (args ! k) = Inr u" and "\<not> truthy u"
  shows "injectLoop reg args [] = Inr (vs, drop k args)
       \<and> create ctx reg func (JBool False) = Inr (Wrapper (wrapper ctx func vs (length args - k)))
       \<and> injectDependencies func ctx reg (JBool False)
           = Inr (Wrapper (wrapper ctx func vs (length args - k)))
       \<and> exParamLength (wrapper ctx func vs (length args - k)) = JNum (int (length args - k))
       \<and> (\<forall>reg'. (\<forall>j. j \<le> k \<longrightarrow> reg' (args ! j) = reg (args ! j)) \<longrightarrow>
             injectLoop reg' args [] = Inr (vs, drop k args))"
proof -
  have loop: "injectLoop reg args [] = Inr ([] @ vs, drop k args)"
    using assms(3,4,2,5,6) by (rule injectLoop_stops)
  from assms(2) have ne: "drop k args \<noteq> []" by simp
  have later: "injectLoop reg' args [] = Inr (vs, drop k args)"
    if same: "\<forall>j. j \<le> k \<longrightarrow> reg' (args ! j) = reg (args ! j)" for reg'
  proof -
    have "map reg' (take k args) = map reg (take k args)"
      using same assms(2) by (intro nth_equalityI) simp_all
    with assms(3) have before: "map reg' (take k args) = map Inr vs" by simp
    from same assms(5) have at: "reg' (args ! k) = Inr u" by simp
    have "injectLoop reg' args [] = Inr ([] @ vs, drop k args)"
      using before assms(4,2) at assms(6) by (rule injectLoop_stops)
    then show ?thesis by simp
  qed
  from loop ne assms(1) later show ?thesis
    by (simp add: injectDependencies_create create_def wrapper_def)
qed

text \<open>
  The callable \<open>(x, dep, y)\<close> with a registry that holds \<open>dep\<close> but not \<open>x\<close>, and the
  callable \<open>(dep1, x, dep2)\<close> with the registry \<open>{dep1: 'dep1', dep2: 'dep2'}\<close> of the tests.
\<close>

theorem greedy_prefix_match_witness:
  "getFunctionParameters (echo ''function (x, dep, y) {}'') = Inr [''x'', ''dep'', ''y'']
   \<and> objectRegistry noPrototype [(''dep'', JStr ''D'')] ''dep'' = Inr (JStr ''D'')
   \<and> objectRegistry noPrototype [(''dep'', JStr ''D'')] ''x'' = Inr JUndefined
   \<and> injectLoop (objectRegistry noPrototype [(''dep'', JStr ''D'')]) [''x'', ''dep'', ''y''] []
       = Inr ([], [''x'', ''dep'', ''y''])
   \<and> create (JObj 0) (objectRegistry noPrototype [(''dep'', JStr ''D'')])
        (echo ''function (x, dep, y) {}'') (JBool False)
       = Inr (Wrapper (wrapper (JObj 0) (echo ''function (x, dep, y) {}'') [] 3))
   \<and> exParamLength (wrapper (JObj 0) (echo ''function (x, dep, y) {}'') [] 3) = JNum 3
   \<and> injectLoop (objectRegistry noPrototype [(''dep1'', JStr ''dep1''), (''dep2'', JStr ''dep2'')])
        [''dep1'', ''x'', ''dep2''] []
       = Inr ([JStr ''dep1''], [''x'', ''dep2''])
   \<and> create (JObj 0) (objectRegistry noPrototype [(''dep1'', JStr ''dep1''), (''dep2'', JStr ''dep2'')])
        (echo ''function (dep1, x, dep2) {}'') (JBool False)
       = Inr (Wrapper (wrapper (JObj 0) (echo ''function (dep1, x, dep2) {}'') [JStr ''dep1''] 2))"
proof -
  let ?reg = "objectRegistry noPrototype [(''dep'', JStr ''D'')]"
  let ?reg' = "objectRegistry noPrototype [(''dep1'', JStr ''dep1''), (''dep2'', JStr ''dep2'')]"
  have first: "getFunctionParameters (echo ''function (x, dep, y) {}'') = Inr [''x'', ''dep'', ''y'']"
    by (simp add: eval_defs)
  have second: "getFunctionParameters (echo ''function (dep1, x, dep2) {}'')
      = Inr [''dep1'', ''x'', ''dep2'']"
    by (simp add: eval_defs)
  have dep: "?reg ''dep'' = Inr (JStr ''D'')" and x: "?reg ''x'' = Inr JUndefined"
    by (simp_all add: eval_defs)
  have r0: "injectLoop ?reg [''x'', ''dep'', ''y''] [] = Inr ([], drop 0 [''x'', ''dep'', ''y''])
      \<and> create (JObj 0) ?reg (echo ''function (x, dep, y) {}'') (JBool False)
          = Inr (Wrapper (wrapper (JObj 0) (echo ''function (x, dep, y) {}'') []
                   (length [''x'', ''dep'', ''y''] - 0)))
      \<and> exParamLength (wrapper (JObj 0) (echo ''function (x, dep, y) {}'') []
                   (length [''x'', ''dep'', ''y''] - 0))
          = JNum (int (length [''x'', ''dep'', ''y''] - 0))"
    using greedy_prefix_match [of "echo ''function (x, dep, y) {}''" "[''x'', ''dep'', ''y'']" 0
        ?reg "[]" JUndefined "JObj 0", OF first]
    by (simp add: eval_defs)
  have r1: "injectLoop ?reg' [''dep1'', ''x'', ''dep2''] []
          = Inr ([JStr ''dep1''], drop 1 [''dep1'', ''x'', ''dep2''])
      \<and> create (JObj 0) ?reg' (echo ''function (dep1, x, dep2) {}'') (JBool False)
          = Inr (Wrapper (wrapper (JObj 0) (echo ''function (dep1, x, dep2) {}'') [JStr ''dep1'']
                   (length [''dep1'', ''x'', ''dep2''] - 1)))"
    using greedy_prefix_match [of "echo ''function (dep1, x, dep2) {}''" "[''dep1'', ''x'', ''dep2'']" 1
        ?reg' "[JStr ''dep1'']" JUndefined "JObj 0", OF second]
    by (simp add: eval_defs)
  have n3: "length [''x'', ''dep'', ''y''] - 0 = 3" and n2: "length [''dep1'', ''x'', ''dep2''] - 1 = 2"
    by simp_all
  from first dep x r0 r1 show ?thesis
    unfolding n3 n2 by simp
qed

text \<open>
  Claim C1 as stated has matching stop at the first name that is not found in the
  registry. For \<open>function (a, b)\<close> and the registry \<open>{a: 0}\<close> that name is \<open>b\<close>, so \<open>a\<close>
  would be injected and \<open>b\<close> left over; the loop stops at \<open>a\<close>, whose value is falsy.
\<close>

theorem greedy_prefix_match_counterexample:
  "getFunctionParameters (echo ''function (a, b) {}'') = Inr [''a'', ''b'']
   \<and> map_of [(''a'', JNum 0)] ''a'' = Some (JNum 0)
   \<and> map_of [(''a'', JNum 0)] ''b'' = None
   \<and> injectLoop (objectRegistry noPrototype [(''a'', JNum 0)]) [''a'', ''b''] []
       = Inr ([], [''a'', ''b''])
   \<and> injectLoop (objectRegistry noPrototype [(''a'', JNum 0)]) [''a'', ''b''] []
       \<noteq> Inr ([JNum 0], [''b''])"
  by (simp add: eval_defs)

section \<open>The wrapper for the residual parameters\<close>

text \<open>
  Claim C2, as amended. For a callable with parameter names \<open>[a, b, c]\<close> and a registry in
  which \<open>a\<close> and \<open>b\<close> are bound to truthy values and \<open>c\<close> is not found (or bound to a falsy
  value), injection with \<open>mustInvoke = false\<close> returns a wrapper whose \<open>exParamLength\<close> is 1,
  and invoking the wrapper with one value \<open>x\<close> (on any \<open>this\<close>) is the call of the original
  with \<open>(registry[a], registry[b], x)\<close> on the injector's context. \<open>util.injectDependencies\<close>
  returns the same wrapper.
\<close>

theorem partial_injection_wrapper:
  assumes "getFunctionParameters func = Inr [a, b, c]"
    and "reg a = Inr va" and "truthy va"
    and "reg b = Inr vb" and "truthy vb"
    and "reg c = Inr vc" and "\<not> truthy vc"
  shows "create ctx reg func (JBool False) = Inr (Wrapper (wrapper ctx func [va, vb] 1))
       \<and> injectDependencies func ctx reg (JBool False)
           = Inr (Wrapper (wrapper ctx func [va, vb] 1))
       \<and> exParamLength (wrapper ctx func [va, vb] 1) = JNum 1
       \<and> invoke (wrapper ctx func [va, vb] 1) this [x] = invoke func ctx [va, vb, x]"
  using assms by (simp add: injectDependencies_create create_def wrapper_def)

theorem partial_injection_wrapper_witness:
  "create (JObj 0) (objectRegistry noPrototype [(''a'', JStr ''A''), (''b'', JNum 2)])
        (echo ''function (a, b, c) {}'') (JBool False)
     = Inr (Wrapper (wrapper (JObj 0) (echo ''function (a, b, c) {}'') [JStr ''A'', JNum 2] 1))
   \<and> exParamLength (wrapper (JObj 0) (echo ''function (a, b, c) {}'') [JStr ''A'', JNum 2] 1) = JNum 1
   \<and> invoke (wrapper (JObj 0) (echo ''function (a, b, c) {}'') [JStr ''A'', JNum 2] 1) JUndefined [JStr ''X'']
     = Return (JArr [JObj 0, JStr ''A'', JNum 2, JStr ''X'']) None"
  using partial_injection_wrapper [of "echo ''function (a, b, c) {}''" "''a''" "''b''" "''c''"
      "objectRegistry noPrototype [(''a'', JStr ''A''), (''b'', JNum 2)]" "JStr ''A''" "JNum 2"
      JUndefined "JObj 0" JUndefined "JStr ''X''"]
  by (simp add: eval_defs)

text \<open>
  Claim C2 as stated asks only that the registry contains \<open>a\<close> and \<open>b\<close>. With the registry
  \<open>{a: 0, b: 'B'}\<close> nothing is injected: the wrapper has \<open>exParamLength\<close> 3, and called with
  \<open>'X'\<close> it calls the original with \<open>('X')\<close> and not with \<open>(0, 'B', 'X')\<close>.
\<close>

theorem partial_injection_wrapper_counterexample:
  "getFunctionParameters (echo ''function (a, b, c) {}'') = Inr [''a'', ''b'', ''c'']
   \<and> map_of [(''a'', JNum 0), (''b'', JStr ''B'')] ''a'' = Some (JNum 0)
   \<and> map_of [(''a'', JNum 0), (''b'', JStr ''B'')] ''b'' = Some (JStr ''B'')
   \<and> map_of [(''a'', JNum 0), (''b'', JStr ''B'')] ''c'' = None
   \<and> create (JObj 0) (objectRegistry noPrototype [(''a'', JNum 0), (''b'', JStr ''B'')])
        (echo ''function (a, b, c) {}'') (JBool False)
       = Inr (Wrapper (wrapper (JObj 0) (echo ''function (a, b, c) {}'') [] 3))
   \<and> exParamLength (wrapper (JObj 0) (echo ''function (a, b, c) {}'') [] 3) = JNum 3
   \<and> exParamLength (wrapper (JObj 0) (echo ''function (a, b, c) {}'') [] 3) \<noteq> JNum 1
   \<and> invoke (wrapper (JObj 0) (echo ''function (a, b, c) {}'') [] 3) JUndefined [JStr ''X'']
       = Return (JArr [JObj 0, JStr ''X'']) None
   \<and> invoke (echo ''function (a, b, c) {}'') (JObj 0) [JNum 0, JStr ''B'', JStr ''X'']
       = Return (JArr [JObj 0, JNum 0, JStr ''B'', JStr ''X'']) None"
  by (simp add: eval_defs create_def wrapper_def)

section \<open>Forced invocation\<close>

text \<open>
  Claim C3. Once the parameters are known and the loop has run to its end with the
  injected arguments and the residual parameters \<open>rest\<close>: injection with \<open>mustInvoke = true\<close>
  throws the arity error if and only if at least one trailing parameter is left unresolved;
  and when none is left, every parameter was read from the registry, and injection with
  any \<open>mustInvoke\<close> calls the function at once on the injector's context with the resolved
  values and returns what the function returns (no wrapper), an exception of the function
  passing through.
\<close>

theorem must_invoke_arity_error:
  assumes "getFunctionParameters func = Inr args"
    and "injectLoop reg args [] = Inr (injectArgs, rest)"
  shows "(create ctx reg func (JBool True) = Inl (ErrorObj MustInvoke) \<longleftrightarrow> rest \<noteq> [])
       \<and> (rest = [] \<longrightarrow>
            map reg args = map Inr injectArgs
          \<and> create ctx reg func mustInvoke =
              (case invoke func ctx injectArgs of
                 Throw e \<Rightarrow> Inl (Value e)
               | Return v fired \<Rightarrow> Inr (Returned v)))"
proof -
  have iff: "create ctx reg func (JBool True) = Inl (ErrorObj MustInvoke) \<longleftrightarrow> rest \<noteq> []"
    using assms by (simp add: create_def split: call_result.splits)
  have all: "map reg args = map Inr injectArgs" if "rest = []"
  proof -
    from injectLoop_result [OF assms(2)] obtain vs where
      vs: "injectArgs = vs" "rest = drop (length vs) args" "length vs \<le> length args"
          "map reg (take (length vs) args) = map Inr vs"
      by auto
    from vs(2,3) that have "length vs = length args" by simp
    with vs(1,4) show ?thesis by simp
  qed
  have inv: "create ctx reg func mustInvoke =
      (case invoke func ctx injectArgs of
         Throw e \<Rightarrow> Inl (Value e)
       | Return v fired \<Rightarrow> Inr (Returned v))" if "rest = []"
    using assms that by (simp add: create_def)
  from iff all inv show ?thesis by blast
qed

text \<open>
  The registry of the tests, \<open>{dep1: 'dep1', dep2: 'dep2'}\<close>: a trailing parameter makes
  forced injection throw; without one the function is called for both values of
  \<open>mustInvoke\<close>.
\<close>

theorem must_invoke_arity_error_witness:
  "create (JObj 0) (objectRegistry noPrototype [(''dep1'', JStr ''dep1''), (''dep2'', JStr ''dep2'')])
      (echo ''function (dep1, dep2, param1) {}'') (JBool True) = Inl (ErrorObj MustInvoke)
   \<and> create (JObj 0) (objectRegistry noPrototype [(''dep1'', JStr ''dep1''), (''dep2'', JStr ''dep2'')])
      (echo ''function (dep1, dep2) {}'') (JBool True)
       = Inr (Returned (JArr [JObj 0, JStr ''dep1'', JStr ''dep2'']))
   \<and> create (JObj 0) (objectRegistry noPrototype [(''dep1'', JStr ''dep1''), (''dep2'', JStr ''dep2'')])
      (echo ''function (dep1, dep2) {}'') (JBool False)
       = Inr (Returned (JArr [JObj 0, JStr ''dep1'', JStr ''dep2'']))"
  using
    must_invoke_arity_error [of "echo ''function (dep1, dep2, param1) {}''"
      "[''dep1'', ''dep2'', ''param1'']"
      "objectRegistry noPrototype [(''dep1'', JStr ''dep1''), (''dep2'', JStr ''dep2'')]"
      "[JStr ''dep1'', JStr ''dep2'']" "[''param1'']" "JObj 0" "JBool True"]
    must_invoke_arity_error [of "echo ''function (dep1, dep2) {}''"
      "[''dep1'', ''dep2'']"
      "objectRegistry noPrototype [(''dep1'', JStr ''dep1''), (''dep2'', JStr ''dep2'')]"
      "[JStr ''dep1'', JStr ''dep2'']" "[]" "JObj 0" "JBool True"]
    must_invoke_arity_error [of "echo ''function (dep1, dep2) {}''"
      "[''dep1'', ''dep2'']"
      "objectRegistry noPrototype [(''dep1'', JStr ''dep1''), (''dep2'', JStr ''dep2'')]"
      "[JStr ''dep1'', JStr ''dep2'']" "[]" "JObj 0" "JBool False"]
  by (simp add: eval_defs)

section \<open>Falsy components\<close>

text \<open>
  Claim C10. Let the parameter at position \<open>p\<close> name a registry key whose value \<open>u\<close> is
  falsy. Then injection (by \<open>create\<close> and by \<open>util.injectDependencies\<close>) gives exactly the
  result it gives when the registry does not hold that name (its read giving
  \<open>undefined\<close>); whenever the loop ends, at most the \<open>p\<close>
  parameters before that position were injected, so that parameter and all subsequent ones
  are residual; and when the parameters before it all resolve, the match stops at position
  \<open>p\<close> exactly.
\<close>

theorem falsy_component_not_resolved:
  assumes "getFunctionParameters func = Inr args"
    and "p < length args"
    and "reg (args ! p) = Inr u" and "\<not> truthy u"
  shows "create ctx (reg(args ! p := Inr JUndefined)) func mustInvoke = create ctx reg func mustInvoke
       \<and> injectDependencies func ctx (reg(args ! p := Inr JUndefined)) mustInvoke
           = injectDependencies func ctx reg mustInvoke
       \<and> (\<forall>injectArgs rest. injectLoop reg args [] = Inr (injectArgs, rest) \<longrightarrow>
             length injectArgs \<le> p \<and> rest = drop (length injectArgs) args)
       \<and> (\<forall>vs. map reg (take p args) = map Inr vs \<and> (\<forall>v\<in>set vs. truthy v) \<longrightarrow>
             injectLoop reg args [] = Inr (vs, drop p args)
           \<and> create ctx reg func (JBool False)
               = Inr (Wrapper (wrapper ctx func vs (length args - p))))"
proof -
  have absent: "injectLoop (reg(args ! p := Inr JUndefined)) args [] = injectLoop reg args []"
    using assms(3,4) by (rule injectLoop_as_if_absent)
  have same: "create ctx (reg(args ! p := Inr JUndefined)) func mustInvoke = create ctx reg func mustInvoke"
    using assms(1) absent by (simp add: create_def)
  have residual: "length injectArgs \<le> p \<and> rest = drop (length injectArgs) args"
    if "injectLoop reg args [] = Inr (injectArgs, rest)" for injectArgs rest
    using that assms(2,3,4) by (rule injectLoop_never_past)
  have stops: "injectLoop reg args [] = Inr (vs, drop p args)
      \<and> create ctx reg func (JBool False) = Inr (Wrapper (wrapper ctx func vs (length args - p)))"
    if "map reg (take p args) = map Inr vs" and "\<forall>v\<in>set vs. truthy v" for vs
  proof -
    have loop: "injectLoop reg args [] = Inr ([] @ vs, drop p args)"
      using that assms(2,3,4) by (rule injectLoop_stops)
    from assms(2) have "drop p args \<noteq> []" by simp
    with loop assms(1) show ?thesis by (simp add: create_def)
  qed
  from same have same': "injectDependencies func ctx (reg(args ! p := Inr JUndefined)) mustInvoke
      = injectDependencies func ctx reg mustInvoke"
    by (simp add: injectDependencies_create)
  from same same' residual stops show ?thesis by blast
qed

text \<open>
  The registry \<open>{a: 'A', b: '', c: 'C'}\<close> and \<open>function (a, b, c)\<close>: only \<open>a\<close> is injected, as
  with \<open>b\<close> removed.
\<close>

theorem falsy_component_not_resolved_witness:
  "objectRegistry noPrototype [(''a'', JStr ''A''), (''b'', JStr []), (''c'', JStr ''C'')] ''b'' = Inr (JStr [])
   \<and> injectLoop (objectRegistry noPrototype [(''a'', JStr ''A''), (''b'', JStr []), (''c'', JStr ''C'')])
        [''a'', ''b'', ''c''] [] = Inr ([JStr ''A''], [''b'', ''c''])
   \<and> create (JObj 0) (objectRegistry noPrototype [(''a'', JStr ''A''), (''b'', JStr []), (''c'', JStr ''C'')])
        (echo ''function (a, b, c) {}'') (JBool False)
       = Inr (Wrapper (wrapper (JObj 0) (echo ''function (a, b, c) {}'') [JStr ''A''] 2))
   \<and> create (JObj 0) ((objectRegistry noPrototype [(''a'', JStr ''A''), (''b'', JStr []), (''c'', JStr ''C'')])
                         (''b'' := Inr JUndefined))
        (echo ''function (a, b, c) {}'') (JBool False)
       = Inr (Wrapper (wrapper (JObj 0) (echo ''function (a, b, c) {}'') [JStr ''A''] 2))"
proof -
  let ?reg = "objectRegistry noPrototype [(''a'', JStr ''A''), (''b'', JStr []), (''c'', JStr ''C'')]"
  let ?f = "echo ''function (a, b, c) {}''"
  have params: "getFunctionParameters ?f = Inr [''a'', ''b'', ''c'']"
    by (simp add: eval_defs)
  have pos: "(1::nat) < length [''a'', ''b'', ''c'']" by simp
  have b: "?reg ([''a'', ''b'', ''c''] ! 1) = Inr (JStr [])"
    by (simp add: eval_defs)
  have falsy: "\<not> truthy (JStr [])" by simp
  have before: "map ?reg (take 1 [''a'', ''b'', ''c'']) = map Inr [JStr ''A'']
      \<and> (\<forall>v\<in>set [JStr ''A'']. truthy v)"
    by (simp add: eval_defs)
  from falsy_component_not_resolved [of ?f "[''a'', ''b'', ''c'']" 1 ?reg "JStr []" "JObj 0" "JBool False",
      OF params pos b falsy]
  have same: "create (JObj 0) (?reg([''a'', ''b'', ''c''] ! 1 := Inr JUndefined)) ?f (JBool False)
        = create (JObj 0) ?reg ?f (JBool False)"
    and stops: "\<forall>vs. map ?reg (take 1 [''a'', ''b'', ''c'']) = map Inr vs \<and> (\<forall>v\<in>set vs. truthy v) \<longrightarrow>
             injectLoop ?reg [''a'', ''b'', ''c''] [] = Inr (vs, drop 1 [''a'', ''b'', ''c''])
           \<and> create (JObj 0) ?reg ?f (JBool False)
               = Inr (Wrapper (wrapper (JObj 0) ?f vs (length [''a'', ''b'', ''c''] - 1)))"
    by blast+
  from stops before have
    "injectLoop ?reg [''a'', ''b'', ''c''] [] = Inr ([JStr ''A''], drop 1 [''a'', ''b'', ''c''])
     \<and> create (JObj 0) ?reg ?f (JBool False)
         = Inr (Wrapper (wrapper (JObj 0) ?f [JStr ''A''] (length [''a'', ''b'', ''c''] - 1)))"
    by blast
  with same b show ?thesis by (simp add: eval_defs wrapper_def)
qed

section \<open>Classification of initializers\<close>

lemma indexOf_mem: "indexOf xs x + 1 \<noteq> 0 \<longleftrightarrow> x \<in> set xs"
proof -
  have "indexOf xs x \<ge> -1 \<and> (indexOf xs x = -1 \<longleftrightarrow> x \<notin> set xs)"
    by (induction xs) (auto simp: Let_def)
  then show ?thesis by auto
qed

lemma mem_butlast: "xs \<noteq> [] \<Longrightarrow> last xs \<noteq> x \<Longrightarrow> x \<in> set (butlast xs) \<longleftrightarrow> x \<in> set xs"
proof -
  assume ne: "xs \<noteq> []" and l: "last xs \<noteq> x"
  from ne have "set xs = set (butlast xs @ [last xs])" by simp
  then have "set xs = set (butlast xs) \<union> {last xs}" by simp
  with l show ?thesis by auto
qed

text \<open>
  Claim C5. For a function whose parameter names are \<open>args\<close>, \<open>determineAsync\<close> answers
  asynchronous if and only if \<open>args\<close> is not empty and its last element is \<open>done\<close>. A
  function with no parameters, or without a parameter \<open>done\<close>, is synchronous and no
  warning is printed; a function that has a parameter \<open>done\<close> but not as the last one is
  synchronous and the warning is printed (the second component of the result). The
  warning is printed in no other case.
\<close>

theorem determineAsync_classification:
  assumes "getFunctionParameters func = Inr args"
  shows "determineAsync func =
           Inr (args \<noteq> [] \<and> last args = ''done'',
                \<not> (args \<noteq> [] \<and> last args = ''done'') \<and> ''done'' \<in> set args)
       \<and> (args = [] \<longrightarrow> determineAsync func = Inr (False, False))
       \<and> (''done'' \<notin> set args \<longrightarrow> determineAsync func = Inr (False, False))
       \<and> (''done'' \<in> set args \<and> last args \<noteq> ''done'' \<longrightarrow> determineAsync func = Inr (False, True))"
proof -
  have main: "determineAsync func =
           Inr (args \<noteq> [] \<and> last args = ''done'',
                \<not> (args \<noteq> [] \<and> last args = ''done'') \<and> ''done'' \<in> set args)"
  proof (cases "args = []")
    case True
    with assms show ?thesis by (simp add: determineAsync_def)
  next
    case ne: False
    show ?thesis
    proof (cases "last args = ''done''")
      case True
      with ne assms show ?thesis by (simp add: determineAsync_def)
    next
      case False
      with ne have "''done'' \<in> set (butlast args) \<longleftrightarrow> ''done'' \<in> set args"
        by (rule mem_butlast)
      with ne False assms show ?thesis
        by (simp add: determineAsync_def indexOf_mem)
    qed
  qed
  have l: "args \<noteq> [] \<Longrightarrow> last args = ''done'' \<Longrightarrow> ''done'' \<in> set args"
    using last_in_set [of args] by simp
  have c2: "args = [] \<longrightarrow> determineAsync func = Inr (False, False)"
    using main by simp
  have c3: "''done'' \<notin> set args \<longrightarrow> determineAsync func = Inr (False, False)"
  proof
    assume n: "''done'' \<notin> set args"
    with l have "\<not> (args \<noteq> [] \<and> last args = ''done'')" by blast
    with main n show "determineAsync func = Inr (False, False)" by simp
  qed
  have c4: "''done'' \<in> set args \<and> last args \<noteq> ''done'' \<longrightarrow> determineAsync func = Inr (False, True)"
    using main by simp
  from main c2 c3 c4 show ?thesis by blast
qed

text \<open>
  The five functions of the tests.
\<close>

theorem determineAsync_classification_witness:
  "determineAsync (echo ''function (a, b, done) {}'') = Inr (True, False)
   \<and> determineAsync (echo ''function (done) {}'') = Inr (True, False)
   \<and> determineAsync (echo ''function (a, b) {}'') = Inr (False, False)
   \<and> determineAsync (echo ''function () {}'') = Inr (False, False)
   \<and> determineAsync (echo ''function (a, done, b) {}'') = Inr (False, True)"
proof -
  have 1: "getFunctionParameters (echo ''function (a, b, done) {}'') = Inr [''a'', ''b'', ''done'']"
    by (simp add: eval_defs)
  have 2: "getFunctionParameters (echo ''function (done) {}'') = Inr [''done'']"
    by (simp add: eval_defs)
  have 3: "getFunctionParameters (echo ''function (a, b) {}'') = Inr [''a'', ''b'']"
    by (simp add: eval_defs)
  have 4: "getFunctionParameters (echo ''function () {}'') = Inr []"
    by (simp add: eval_defs)
  have 5: "getFunctionParameters (echo ''function (a, done, b) {}'') = Inr [''a'', ''done'', ''b'']"
    by (simp add: eval_defs)
  from determineAsync_classification [OF 1] determineAsync_classification [OF 2]
    determineAsync_classification [OF 3] determineAsync_classification [OF 4]
    determineAsync_classification [OF 5]
  show ?thesis by simp
qed

section \<open>Internal components\<close>

lemma defineInternals_invariant:
  "defineInternals proto externals internals ks obj warned = Inr (obj', warned') \<Longrightarrow>
   externalKeys obj' = externalKeys obj
   \<and> set (internalKeys obj) \<subseteq> set (internalKeys obj')
   \<and> (\<forall>k\<in>set (internalKeys obj').
        k \<in> set (internalKeys obj) \<or> (k \<in> set ks \<and> CHR ''$'' # k \<notin> set (externalKeys obj)))"
proof (induction ks arbitrary: obj warned)
  case Nil
  then show ?case by simp
next
  case (Cons key rest)
  show ?case
  proof (cases "componentsGet proto obj externals internals (CHR ''$'' # key)")
    case (Inl e)
    with Cons.prems show ?thesis by simp
  next
    case (Inr v)
    show ?thesis
    proof (cases "v = JUndefined")
      case False
      with Inr Cons.prems
      have "defineInternals proto externals internals rest obj (warned @ [key]) = Inr (obj', warned')"
        by simp
      from Cons.IH [OF this] show ?thesis by auto
    next
      case True
      show ?thesis
      proof (cases "CHR ''$'' # key \<in> set (externalKeys obj) \<or> key \<in> set (internalKeys obj)")
        case True
        with Inr \<open>v = JUndefined\<close> Cons.prems show ?thesis by simp
      next
        case False
        with Inr True Cons.prems
        have "defineInternals proto externals internals rest
                (obj\<lparr>internalKeys := internalKeys obj @ [key]\<rparr>) warned = Inr (obj', warned')"
          by simp
        from Cons.IH [OF this] False show ?thesis by auto
      qed
    qed
  qed
qed

lemma createInjectionComponents_internal:
  assumes "createInjectionComponents proto externalComponents internalComponents = Inr (obj, warned)"
    and "key \<in> set (internalKeys obj)"
  shows "CHR ''$'' # key \<notin> set (externalKeys obj) \<and> key \<in> set (ownKeys internalComponents)"
  using defineInternals_invariant [OF assms(1) [unfolded createInjectionComponents_def]] assms(2)
  by auto

text \<open>
  Every internal component gets such an entry unless an external component or the
  prototype already answers to its name.
\<close>

lemma defineInternals_defines:
  "defineInternals proto externals internals ks obj warned = Inr (obj', warned') \<Longrightarrow>
   key \<in> set ks \<or> key \<in> set (internalKeys obj) \<Longrightarrow>
   CHR ''$'' # key \<notin> set (externalKeys obj) \<Longrightarrow> proto (CHR ''$'' # key) = JUndefined \<Longrightarrow>
   key \<in> set (internalKeys obj')"
proof (induction ks arbitrary: obj warned)
  case Nil
  then show ?case by simp
next
  case (Cons k rest)
  show ?case
  proof (cases "key \<in> set (internalKeys obj)")
    case True
    with defineInternals_invariant [OF Cons.prems(1)] show ?thesis by auto
  next
    case notyet: False
    with Cons.prems(2) have mem: "key = k \<or> key \<in> set rest" by auto
    show ?thesis
    proof (cases "componentsGet proto obj externals internals (CHR ''$'' # k)")
      case (Inl e)
      with Cons.prems(1) show ?thesis by simp
    next
      case (Inr v)
      show ?thesis
      proof (cases "v = JUndefined")
        case False
        with Inr Cons.prems(1)
        have run: "defineInternals proto externals internals rest obj (warned @ [k]) = Inr (obj', warned')"
          by simp
        from False Inr notyet Cons.prems(3,4) have "key \<noteq> k"
          by (auto simp: componentsGet_def split: if_splits)
        with mem have "key \<in> set rest" by simp
        with Cons.IH [OF run _ Cons.prems(3,4)] show ?thesis by simp
      next
        case True
        show ?thesis
        proof (cases "CHR ''$'' # k \<in> set (externalKeys obj) \<or> k \<in> set (internalKeys obj)")
          case True
          with Inr \<open>v = JUndefined\<close> Cons.prems(1) show ?thesis by simp
        next
          case False
          let ?obj = "obj\<lparr>internalKeys := internalKeys obj @ [k]\<rparr>"
          from False Inr True Cons.prems(1)
          have run: "defineInternals proto externals internals rest ?obj warned = Inr (obj', warned')"
            by simp
          from mem have "key \<in> set rest \<or> key \<in> set (internalKeys ?obj)" by auto
          moreover from Cons.prems(3) have "CHR ''$'' # key \<notin> set (externalKeys ?obj)" by simp
          ultimately show ?thesis using Cons.IH [OF run _ _ Cons.prems(4)] by blast
        qed
      qed
    qed
  qed
qed

lemma createInjectionComponents_defines:
  assumes "createInjectionComponents proto externalComponents internalComponents = Inr (obj, warned)"
    and "key \<in> set (ownKeys internalComponents)"
    and "CHR ''$'' # key \<notin> set (ownKeys externalComponents)"
    and "proto (CHR ''$'' # key) = JUndefined"
  shows "key \<in> set (internalKeys obj)"
  using defineInternals_defines [OF assms(1) [unfolded createInjectionComponents_def]] assms(2,3,4)
  by simp

text \<open>
  Claim C8. Let \<open>obj\<close> be the object \<open>createInjectionComponents\<close> returned, and \<open>key\<close> one
  of the internal components it defined a getter for (under the name \<open>'$' + key\<close>). Whatever
  the external and internal components hold when the entry is read: while the slot
  \<open>internalComponents[key]\<close> is \<open>null\<close> the read throws the "accessed too early" error,
  and once the slot holds anything else the read returns that value. The injector does
  not catch the error: injecting a function whose first parameter is that entry throws
  it.
\<close>

theorem internal_component_too_early:
  assumes "createInjectionComponents proto externalComponents internalComponents = Inr (obj, warned)"
    and "key \<in> set (internalKeys obj)"
  shows "(field internals key = JNull \<longrightarrow>
            componentsGet proto obj externals internals (CHR ''$'' # key)
              = Inl (ErrorObj AccessedTooEarly))
       \<and> (field internals key \<noteq> JNull \<longrightarrow>
            componentsGet proto obj externals internals (CHR ''$'' # key)
              = Inr (field internals key))
       \<and> (field internals key = JNull \<and> getFunctionParameters func = Inr ((CHR ''$'' # key) # others) \<longrightarrow>
            create ctx (componentsGet proto obj externals internals) func mustInvoke
              = Inl (ErrorObj AccessedTooEarly))"
proof -
  from createInjectionComponents_internal [OF assms]
  have notext: "CHR ''$'' # key \<notin> set (externalKeys obj)" by simp
  with assms(2) have
    rd: "componentsGet proto obj externals internals (CHR ''$'' # key) =
      (if field internals key = JNull then Inl (ErrorObj AccessedTooEarly)
       else Inr (field internals key))"
    by (simp add: componentsGet_def)
  then show ?thesis by (simp add: create_def)
qed

text \<open>
  External component \<open>db\<close>, internal components \<open>app\<close> (set) and \<open>routes\<close> (still \<open>null\<close>,
  later set).
\<close>

theorem internal_component_too_early_witness:
  "createInjectionComponents noPrototype (objectOf [(''db'', JObj 1)])
       (objectOf [(''app'', JObj 2), (''routes'', JNull)])
     = Inr (\<lparr>externalKeys = [''db''], internalKeys = [''app'', ''routes'']\<rparr>, [])
   \<and> componentsGet noPrototype \<lparr>externalKeys = [''db''], internalKeys = [''app'', ''routes'']\<rparr>
        (objectOf [(''db'', JObj 1)]) (objectOf [(''app'', JObj 2), (''routes'', JNull)]) ''$routes''
       = Inl (ErrorObj AccessedTooEarly)
   \<and> componentsGet noPrototype \<lparr>externalKeys = [''db''], internalKeys = [''app'', ''routes'']\<rparr>
        (objectOf [(''db'', JObj 1)]) (objectOf [(''app'', JObj 2), (''routes'', JObj 3)]) ''$routes''
       = Inr (JObj 3)
   \<and> create (JObj 2)
        (componentsGet noPrototype \<lparr>externalKeys = [''db''], internalKeys = [''app'', ''routes'']\<rparr>
           (objectOf [(''db'', JObj 1)]) (objectOf [(''app'', JObj 2), (''routes'', JNull)]))
        (echo ''function ($routes, db) {}'') (JBool False)
       = Inl (ErrorObj AccessedTooEarly)"
proof -
  let ?obj = "\<lparr>externalKeys = [''db''], internalKeys = [''app'', ''routes'']\<rparr>"
  have mk: "createInjectionComponents noPrototype (objectOf [(''db'', JObj 1)])
       (objectOf [(''app'', JObj 2), (''routes'', JNull)]) = Inr (?obj, [])"
    by (simp add: createInjectionComponents_def componentsGet_def eval_defs)
  have key: "''routes'' \<in> set (internalKeys ?obj)" by simp
  have params: "getFunctionParameters (echo ''function ($routes, db) {}'') = Inr [''$routes'', ''db'']"
    by (simp add: eval_defs)
  from internal_component_too_early [OF mk key,
      of "objectOf [(''app'', JObj 2), (''routes'', JNull)]" "objectOf [(''db'', JObj 1)]"
         "echo ''function ($routes, db) {}''" "[''db'']" "JObj 2" "JBool False"]
    internal_component_too_early [OF mk key,
      of "objectOf [(''app'', JObj 2), (''routes'', JObj 3)]" "objectOf [(''db'', JObj 1)]"
         "echo ''function ($routes, db) {}''" "[''db'']" "JObj 2" "JBool False"]
    mk params
  show ?thesis by (simp add: objectOf_def getProperty_def)
qed

section \<open>Steps of the pipeline\<close>

text \<open>
  Claim C6. For an initializer classified asynchronous whose injection (with
  \<open>mustInvoke = false\<close>) returns \<open>r\<close>: if \<open>r\<close> is not a function, the step fires the callback
  with the "not invokable with callback" error; if \<open>r\<close> is a function whose \<open>exParamLength\<close>
  is not 1, the step fires the callback with the "cannot take additional parameters"
  error; otherwise \<open>r\<close> is called with the completion callback as its single argument, and
  the step completes as that call does. With the injector of \<open>create\<close>: when every parameter
  resolved, \<open>r\<close> is what the call of the initializer returned; when parameters are left,
  \<open>r\<close> is the wrapper; with exactly one left the initializer is called on the context
  with the injected values followed by the callback, and with more than one left the step
  fails with the second error.
\<close>

theorem async_initializer_arity:
  assumes "determineAsync initializer = Inr (True, warned)"
    and "inject initializer (JBool False) = Inr r"
  shows "(asFunction funs r = None \<longrightarrow>
            createInitializerFunction funs inject initializer callback
              = Signalled (ErrorObj AsyncNotInvokable))
       \<and> (\<forall>f. asFunction funs r = Some f \<and> exParamLength f \<noteq> JNum 1 \<longrightarrow>
            createInitializerFunction funs inject initializer callback
              = Signalled (ErrorObj AsyncAdditionalParams))
       \<and> (\<forall>f. asFunction funs r = Some f \<and> exParamLength f = JNum 1 \<longrightarrow>
            createInitializerFunction funs inject initializer callback
              = completion (invoke f JUndefined [callback]))
       \<and> (\<forall>ctx reg args injectArgs rest.
            inject = create ctx reg \<and> getFunctionParameters initializer = Inr args
            \<and> injectLoop reg args [] = Inr (injectArgs, rest) \<longrightarrow>
              (rest = [] \<longrightarrow> (\<exists>v. r = Returned v))
            \<and> (rest \<noteq> [] \<longrightarrow> r = Wrapper (wrapper ctx initializer injectArgs (length rest)))
            \<and> (length rest = 1 \<longrightarrow>
                 createInitializerFunction funs inject initializer callback
                   = completion (invoke initializer ctx (injectArgs @ [callback])))
            \<and> (length rest > 1 \<longrightarrow>
                 createInitializerFunction funs inject initializer callback
                   = Signalled (ErrorObj AsyncAdditionalParams)))"
proof -
  let ?step = "createInitializerFunction funs inject initializer callback"
  have step: "?step =
      (case asFunction funs r of
         None \<Rightarrow> Signalled (ErrorObj AsyncNotInvokable)
       | Some f \<Rightarrow>
           if exParamLength f \<noteq> JNum 1 then Signalled (ErrorObj AsyncAdditionalParams)
           else completion (invoke f JUndefined [callback]))"
    using assms by (simp add: createInitializerFunction_def)
  have c1: "asFunction funs r = None \<longrightarrow> ?step = Signalled (ErrorObj AsyncNotInvokable)"
    using step by simp
  have c2: "\<forall>f. asFunction funs r = Some f \<and> exParamLength f \<noteq> JNum 1 \<longrightarrow>
      ?step = Signalled (ErrorObj AsyncAdditionalParams)"
    using step by simp
  have c3: "\<forall>f. asFunction funs r = Some f \<and> exParamLength f = JNum 1 \<longrightarrow>
      ?step = completion (invoke f JUndefined [callback])"
    using step by simp
  have c4: "(rest = [] \<longrightarrow> (\<exists>v. r = Returned v))
      \<and> (rest \<noteq> [] \<longrightarrow> r = Wrapper (wrapper ctx initializer injectArgs (length rest)))
      \<and> (length rest = 1 \<longrightarrow> ?step = completion (invoke initializer ctx (injectArgs @ [callback])))
      \<and> (length rest > 1 \<longrightarrow> ?step = Signalled (ErrorObj AsyncAdditionalParams))"
    if inj: "inject = create ctx reg" and params: "getFunctionParameters initializer = Inr args"
      and loop: "injectLoop reg args [] = Inr (injectArgs, rest)"
    for ctx reg args injectArgs rest
  proof -
    have cr: "create ctx reg initializer (JBool False) = Inr r"
      using assms(2) inj by simp
    have a: "rest = [] \<longrightarrow> (\<exists>v. r = Returned v)"
      using cr params loop by (auto simp: create_def split: call_result.splits)
    have b: "rest \<noteq> [] \<longrightarrow> r = Wrapper (wrapper ctx initializer injectArgs (length rest))"
      using cr params loop by (auto simp: create_def)
    have c: "length rest = 1 \<longrightarrow> ?step = completion (invoke initializer ctx (injectArgs @ [callback]))"
    proof
      assume l: "length rest = 1"
      then have "rest \<noteq> []" by auto
      with b have "r = Wrapper (wrapper ctx initializer injectArgs (length rest))" by simp
      with l step show "?step = completion (invoke initializer ctx (injectArgs @ [callback]))"
        by (simp add: wrapper_def)
    qed
    have d: "length rest > 1 \<longrightarrow> ?step = Signalled (ErrorObj AsyncAdditionalParams)"
    proof
      assume l: "length rest > 1"
      then have "rest \<noteq> []" by auto
      with b have "r = Wrapper (wrapper ctx initializer injectArgs (length rest))" by simp
      with l step show "?step = Signalled (ErrorObj AsyncAdditionalParams)"
        by (simp add: wrapper_def)
    qed
    from a b c d show ?thesis by blast
  qed
  from c1 c2 c3 c4 show ?thesis by blast
qed

text \<open>
  An asynchronous initializer \<open>(db, done)\<close> that fires its callback with an error; the
  same parameters when the registry holds a component named \<open>done\<close>; and \<open>(x, done)\<close> with
  \<open>x\<close> not in the registry.
\<close>

theorem async_initializer_arity_witness:
  "determineAsync (firing ''function (db, done) {}'' (JObj 9)) = Inr (True, False)
   \<and> createInitializerFunction anyFunction (create (JObj 0) (objectRegistry noPrototype [(''db'', JObj 1)]))
        (firing ''function (db, done) {}'' (JObj 9)) (JFun 0)
       = Signalled (Value (JObj 9))
   \<and> createInitializerFunction anyFunction
        (create (JObj 0) (objectRegistry noPrototype [(''db'', JObj 1), (''done'', JObj 5)]))
        (echo ''function (db, done) {}'') (JFun 0)
       = Signalled (ErrorObj AsyncNotInvokable)
   \<and> createInitializerFunction anyFunction (create (JObj 0) (objectRegistry noPrototype [(''db'', JObj 1)]))
        (echo ''function (x, done) {}'') (JFun 0)
       = Signalled (ErrorObj AsyncAdditionalParams)"
proof -
  let ?reg = "objectRegistry noPrototype [(''db'', JObj 1)]"
  let ?reg' = "objectRegistry noPrototype [(''db'', JObj 1), (''done'', JObj 5)]"
  let ?f1 = "firing ''function (db, done) {}'' (JObj 9)"
  let ?f2 = "echo ''function (db, done) {}''"
  let ?f3 = "echo ''function (x, done) {}''"
  have a1: "determineAsync ?f1 = Inr (True, False)"
    by (simp add: determineAsync_def eval_defs)
  have a2: "determineAsync ?f2 = Inr (True, False)"
    by (simp add: determineAsync_def eval_defs)
  have a3: "determineAsync ?f3 = Inr (True, False)"
    by (simp add: determineAsync_def eval_defs)
  have i1: "create (JObj 0) ?reg ?f1 (JBool False) = Inr (Wrapper (wrapper (JObj 0) ?f1 [JObj 1] 1))"
    by (simp add: create_def eval_defs)
  have i2: "create (JObj 0) ?reg' ?f2 (JBool False) = Inr (Returned (JArr [JObj 0, JObj 1, JObj 5]))"
    by (simp add: create_def eval_defs)
  have i3: "create (JObj 0) ?reg ?f3 (JBool False) = Inr (Wrapper (wrapper (JObj 0) ?f3 [] 2))"
    by (simp add: create_def eval_defs numeral_2_eq_2)
  from async_initializer_arity [of ?f1 False "create (JObj 0) ?reg"
      "Wrapper (wrapper (JObj 0) ?f1 [JObj 1] 1)" anyFunction "JFun 0", OF a1 i1]
  have s1: "createInitializerFunction anyFunction (create (JObj 0) ?reg) ?f1 (JFun 0)
      = completion (invoke (wrapper (JObj 0) ?f1 [JObj 1] 1) JUndefined [JFun 0])"
    by (simp add: wrapper_def)
  from async_initializer_arity [of ?f2 False "create (JObj 0) ?reg'"
      "Returned (JArr [JObj 0, JObj 1, JObj 5])" anyFunction "JFun 0", OF a2 i2]
  have s2: "createInitializerFunction anyFunction (create (JObj 0) ?reg') ?f2 (JFun 0)
      = Signalled (ErrorObj AsyncNotInvokable)"
    by simp
  from async_initializer_arity [of ?f3 False "create (JObj 0) ?reg"
      "Wrapper (wrapper (JObj 0) ?f3 [] 2)" anyFunction "JFun 0", OF a3 i3]
  have s3: "createInitializerFunction anyFunction (create (JObj 0) ?reg) ?f3 (JFun 0)
      = Signalled (ErrorObj AsyncAdditionalParams)"
    by (simp add: wrapper_def)
  from a1 s1 s2 s3 show ?thesis
    by (simp add: wrapper_def firing_def)
qed

text \<open>
  Claim C7, as amended. For an initializer classified synchronous: whatever the injection
  throws is caught and handed to the completion callback as its error argument, which the
  run takes for a failure exactly when it is truthy (an \<open>Error\<close> object always is, the
  thrown values \<open>0\<close>, \<open>''\<close>, \<open>false\<close>, \<open>null\<close>, \<open>undefined\<close> and \<open>NaN\<close> are not); in
  particular, with the injector of \<open>create\<close>, an exception \<open>e\<close> thrown by the initializer
  itself, called with its resolved dependencies, is the argument of the callback. When
  the injection throws nothing the callback is called with \<open>null\<close>, inside the \<open>try\<close> block:
  if that call throws, the callback is called once more, with what it threw. The step
  never lets an exception of the initializer escape and never leaves the callback
  uncalled. The step of \<open>umbrella.init\<close> does the same around the direct call, and leaves
  its array of arguments as it was. A synchronous step thus reports through the callback,
  like an asynchronous one.
\<close>

theorem sync_initializer_exceptions:
  assumes "determineAsync initializer = Inr (False, warned)"
  shows "(\<forall>err. inject initializer (JBool True) = Inl err \<longrightarrow>
            createInitializerFunction funs inject initializer callback = Signalled err)
       \<and> (\<forall>err rest i. inject initializer (JBool True) = Inl err \<longrightarrow>
            series i (createInitializerFunction funs inject initializer # rest) callback
              = (if isError err then ([i], Failed err)
                 else (case series (Suc i) rest callback of
                         (started, out) \<Rightarrow> (i # started, out))))
       \<and> (\<forall>l. isError (ErrorObj l)) \<and> (\<forall>v. isError (Value v) = truthy v)
       \<and> (\<forall>r. inject initializer (JBool True) = Inr r \<longrightarrow>
            createInitializerFunction funs inject initializer callback
              = callbackNull funs callback)
       \<and> (\<forall>r. inject initializer (JBool True) = Inr r \<and> callbackThrows funs callback = None \<longrightarrow>
            createInitializerFunction funs inject initializer callback = Signalled (Value JNull))
       \<and> (\<forall>r e. inject initializer (JBool True) = Inr r \<and> callbackThrows funs callback = Some e \<longrightarrow>
            createInitializerFunction funs inject initializer callback
              = SignalledTwice (Value JNull) e)
       \<and> (\<forall>e. createInitializerFunction funs inject initializer callback \<noteq> Escaped e)
       \<and> createInitializerFunction funs inject initializer callback \<noteq> Pending
       \<and> (\<forall>ctx reg args vs e.
            getFunctionParameters initializer = Inr args \<and> map reg args = map Inr vs
            \<and> (\<forall>v\<in>set vs. truthy v) \<and> invoke initializer ctx vs = Throw e \<longrightarrow>
              createInitializerFunction funs (create ctx reg) initializer callback
                = Signalled (Value e))
       \<and> (\<forall>e. invoke initializer app args' = Throw e \<longrightarrow>
            initStep funs app initializer False args' callback = (Signalled (Value e), args'))
       \<and> (\<forall>v fired. invoke initializer app args' = Return v fired \<longrightarrow>
            initStep funs app initializer False args' callback
              = (callbackNull funs callback, args'))"
proof -
  have step: "createInitializerFunction funs inject initializer callback =
      (case inject initializer (JBool True) of
         Inl err \<Rightarrow> Signalled err
       | Inr r \<Rightarrow> callbackNull funs callback)" for inject
    using assms by (simp add: createInitializerFunction_def)
  have cn: "callbackNull funs callback =
      (case callbackThrows funs callback of
         None \<Rightarrow> Signalled (Value JNull)
       | Some e \<Rightarrow> SignalledTwice (Value JNull) e)"
    by (simp add: callbackNull_def)
  have c1: "\<forall>err. inject initializer (JBool True) = Inl err \<longrightarrow>
      createInitializerFunction funs inject initializer callback = Signalled err"
    using step by simp
  have c2: "\<forall>err rest i. inject initializer (JBool True) = Inl err \<longrightarrow>
      series i (createInitializerFunction funs inject initializer # rest) callback
        = (if isError err then ([i], Failed err)
           else (case series (Suc i) rest callback of
                   (started, out) \<Rightarrow> (i # started, out)))"
    using c1 by simp
  have c3: "(\<forall>l. isError (ErrorObj l)) \<and> (\<forall>v. isError (Value v) = truthy v)"
    by simp
  have c4: "\<forall>r. inject initializer (JBool True) = Inr r \<longrightarrow>
      createInitializerFunction funs inject initializer callback = callbackNull funs callback"
    using step by simp
  have c5: "\<forall>r. inject initializer (JBool True) = Inr r \<and> callbackThrows funs callback = None \<longrightarrow>
      createInitializerFunction funs inject initializer callback = Signalled (Value JNull)"
    using c4 cn by simp
  have c6: "\<forall>r e. inject initializer (JBool True) = Inr r \<and> callbackThrows funs callback = Some e \<longrightarrow>
      createInitializerFunction funs inject initializer callback = SignalledTwice (Value JNull) e"
    using c4 cn by simp
  have c7: "\<forall>e. createInitializerFunction funs inject initializer callback \<noteq> Escaped e"
    using step [of inject] cn by (simp split: sum.splits option.splits)
  have c8: "createInitializerFunction funs inject initializer callback \<noteq> Pending"
    using step [of inject] cn by (simp split: sum.splits option.splits)
  have c9: "createInitializerFunction funs (create ctx reg) initializer callback = Signalled (Value e)"
    if "getFunctionParameters initializer = Inr args" and "map reg args = map Inr vs"
      and "\<forall>v\<in>set vs. truthy v" and "invoke initializer ctx vs = Throw e"
    for ctx reg args vs e
  proof -
    have "injectLoop reg args [] = Inr ([] @ vs, [])"
      using that(2,3) by (rule injectLoop_all)
    with that(1,4) have "create ctx reg initializer (JBool True) = Inl (Value e)"
      by (simp add: create_def)
    with step [of "create ctx reg"] show ?thesis by simp
  qed
  have c10: "\<forall>e. invoke initializer app args' = Throw e \<longrightarrow>
      initStep funs app initializer False args' callback = (Signalled (Value e), args')"
    by (simp add: initStep_def)
  have c11: "\<forall>v fired. invoke initializer app args' = Return v fired \<longrightarrow>
      initStep funs app initializer False args' callback = (callbackNull funs callback, args')"
    by (simp add: initStep_def)
  from c1 c2 c3 c4 c5 c6 c7 c8 c9 c10 c11 show ?thesis by blast
qed

text \<open>
  A synchronous initializer that throws, one that returns (with a callback that returns
  and with one that throws), and one with a parameter the registry does not hold (forced
  injection throws the arity error).
\<close>

theorem sync_initializer_exceptions_witness:
  "determineAsync (throwing ''function (db) {}'' (JObj 9)) = Inr (False, False)
   \<and> createInitializerFunction anyFunction (create (JObj 0) (objectRegistry noPrototype [(''db'', JObj 7)]))
        (throwing ''function (db) {}'' (JObj 9)) (JFun 0)
       = Signalled (Value (JObj 9))
   \<and> createInitializerFunction anyFunction (create (JObj 0) (objectRegistry noPrototype [(''db'', JObj 7)]))
        (echo ''function (db) {}'') (JFun 0)
       = Signalled (Value JNull)
   \<and> createInitializerFunction lateThrower (create (JObj 0) (objectRegistry noPrototype [(''db'', JObj 7)]))
        (echo ''function (db) {}'') (JFun 0)
       = SignalledTwice (Value JNull) (Value (JStr ''late''))
   \<and> createInitializerFunction anyFunction (create (JObj 0) (objectRegistry noPrototype [(''db'', JObj 7)]))
        (echo ''function (db, extra) {}'') (JFun 0)
       = Signalled (ErrorObj MustInvoke)
   \<and> initStep anyFunction (JObj 0) (throwing ''function (x) {}'' (JObj 9)) False [JNum 5] (JFun 0)
       = (Signalled (Value (JObj 9)), [JNum 5])
   \<and> initStep anyFunction (JObj 0) (echo ''function (x) {}'') False [JNum 5] (JFun 0)
       = (Signalled (Value JNull), [JNum 5])"
proof -
  let ?inject = "create (JObj 0) (objectRegistry noPrototype [(''db'', JObj 7)])"
  let ?f1 = "throwing ''function (db) {}'' (JObj 9)"
  let ?f2 = "echo ''function (db) {}''"
  let ?f3 = "echo ''function (db, extra) {}''"
  let ?f4 = "throwing ''function (x) {}'' (JObj 9)"
  let ?f5 = "echo ''function (x) {}''"
  have a1: "determineAsync ?f1 = Inr (False, False)"
    by (simp add: determineAsync_def eval_defs)
  have a2: "determineAsync ?f2 = Inr (False, False)"
    by (simp add: determineAsync_def eval_defs)
  have a3: "determineAsync ?f3 = Inr (False, False)"
    by (simp add: determineAsync_def eval_defs)
  have a4: "determineAsync ?f4 = Inr (False, False)"
    by (simp add: determineAsync_def eval_defs)
  have a5: "determineAsync ?f5 = Inr (False, False)"
    by (simp add: determineAsync_def eval_defs)
  have i1: "?inject ?f1 (JBool True) = Inl (Value (JObj 9))"
    by (simp add: create_def eval_defs)
  have i2: "?inject ?f2 (JBool True) = Inr (Returned (JArr [JObj 0, JObj 7]))"
    by (simp add: create_def eval_defs)
  have i3: "?inject ?f3 (JBool True) = Inl (ErrorObj MustInvoke)"
    by (simp add: create_def eval_defs)
  have i4: "invoke ?f4 (JObj 0) [JNum 5] = Throw (JObj 9)"
    by (simp add: throwing_def)
  have i5: "invoke ?f5 (JObj 0) [JNum 5] = Return (JArr [JObj 0, JNum 5]) None"
    by (simp add: echo_def)
  have quiet: "callbackThrows anyFunction (JFun 0) = None"
    by (simp add: eval_defs)
  have late: "callbackThrows lateThrower (JFun 0) = Some (Value (JStr ''late''))"
    by (simp add: eval_defs)
  from sync_initializer_exceptions [OF a1, of ?inject anyFunction "JFun 0" "JObj 0" "[]"] i1
  have s1: "createInitializerFunction anyFunction ?inject ?f1 (JFun 0) = Signalled (Value (JObj 9))"
    by blast
  from sync_initializer_exceptions [OF a2, of ?inject anyFunction "JFun 0" "JObj 0" "[]"] i2 quiet
  have s2: "createInitializerFunction anyFunction ?inject ?f2 (JFun 0) = Signalled (Value JNull)"
    by blast
  from sync_initializer_exceptions [OF a2, of ?inject lateThrower "JFun 0" "JObj 0" "[]"] i2 late
  have s2': "createInitializerFunction lateThrower ?inject ?f2 (JFun 0)
      = SignalledTwice (Value JNull) (Value (JStr ''late''))"
    by blast
  from sync_initializer_exceptions [OF a3, of ?inject anyFunction "JFun 0" "JObj 0" "[]"] i3
  have s3: "createInitializerFunction anyFunction ?inject ?f3 (JFun 0) = Signalled (ErrorObj MustInvoke)"
    by blast
  from sync_initializer_exceptions [OF a4, of ?inject anyFunction "JFun 0" "JObj 0" "[JNum 5]"] i4
  have s4: "initStep anyFunction (JObj 0) ?f4 False [JNum 5] (JFun 0)
      = (Signalled (Value (JObj 9)), [JNum 5])"
    by blast
  from sync_initializer_exceptions [OF a5, of ?inject anyFunction "JFun 0" "JObj 0" "[JNum 5]"] i5
  have "initStep anyFunction (JObj 0) ?f5 False [JNum 5] (JFun 0)
      = (callbackNull anyFunction (JFun 0), [JNum 5])"
    by blast
  with quiet have s5: "initStep anyFunction (JObj 0) ?f5 False [JNum 5] (JFun 0)
      = (Signalled (Value JNull), [JNum 5])"
    by (simp add: callbackNull_def)
  from a1 s1 s2 s2' s3 s4 s5 show ?thesis by simp
qed

text \<open>
  Claim C7 as stated has every exception converted into a failure. An initializer that
  throws \<open>0\<close> makes the step call \<open>callback(0)\<close>, which is no error: a run of this step and
  a second one starts both and ends \<open>Done\<close>; and an initializer that throws \<open>null\<close> gives
  the very outcome of one that returns.
\<close>

theorem sync_initializer_exceptions_counterexample:
  "determineAsync (throwing ''function () {}'' (JNum 0)) = Inr (False, False)
   \<and> createInitializerFunction anyFunction (create (JObj 0) (objectRegistry noPrototype []))
        (throwing ''function () {}'' (JNum 0)) (JFun 0)
       = Signalled (Value (JNum 0))
   \<and> \<not> isError (Value (JNum 0))
   \<and> series 0
        [createInitializerFunction anyFunction (create (JObj 0) (objectRegistry noPrototype []))
           (throwing ''function () {}'' (JNum 0)),
         createInitializerFunction anyFunction (create (JObj 0) (objectRegistry noPrototype []))
           (echo ''function () {}'')]
        (JFun 0)
       = ([0, 1], Done)
   \<and> createInitializerFunction anyFunction (create (JObj 0) (objectRegistry noPrototype []))
        (throwing ''function () {}'' JNull) (JFun 0)
       = createInitializerFunction anyFunction (create (JObj 0) (objectRegistry noPrototype []))
        (echo ''function () {}'') (JFun 0)"
  by (simp add: createInitializerFunction_def determineAsync_def create_def eval_defs)

section \<open>Extra arguments and the run of the pipeline\<close>

text \<open>
  Claim C9, as amended. In \<open>umbrella.init\<close> the list of positional extra arguments is
  built from the descriptor's \<open>dependencies\<close> field: an absent field (the read gives
  \<open>undefined\<close>) yields the empty list, an array is used as it is, any other truthy value
  yields the single-element list containing it, and any other falsy value yields the
  empty list. The step holds this list and passes what it holds to the initializer: a
  synchronous step passes it alone and leaves it as it is, an asynchronous step pushes
  the completion callback onto it and passes the result. The pipeline of the initializer
  module does not read the field: \<open>processInitializer\<close> makes the same step of any two
  descriptors with the same \<open>component\<close>.
\<close>

theorem initArgs_from_dependencies:
  "initArgs JUndefined = []
   \<and> initArgs (JArr xs) = xs
   \<and> ((\<forall>ys. d \<noteq> JArr ys) \<and> truthy d \<longrightarrow> initArgs d = [d])
   \<and> ((\<forall>ys. d \<noteq> JArr ys) \<and> \<not> truthy d \<longrightarrow> initArgs d = [])
   \<and> (map_of props ''dependencies'' = None \<longrightarrow>
         readProperty (JRec props) ''dependencies'' = Inr JUndefined)
   \<and> (readProperty initDescriptor ''component'' = Inr component
       \<and> require initBase component = Inr m
       \<and> selectVariant env m = Inr (IsFunction f)
       \<and> determineAsync f = Inr (async, warned)
       \<and> readProperty initDescriptor ''dependencies'' = Inr d \<longrightarrow>
         initDescriptorStep funs require env initBase app initDescriptor
           = Inr (initStep funs app f async, initArgs d))
   \<and> initStep funs app f True args callback
       = (completion (invoke f app (args @ [callback])), args @ [callback])
   \<and> snd (initStep funs app f False args callback) = args
   \<and> (\<forall>e. invoke f app args = Throw e \<longrightarrow>
         fst (initStep funs app f False args callback) = Signalled (Value e))
   \<and> (\<forall>v fired. invoke f app args = Return v fired \<longrightarrow>
         fst (initStep funs app f False args callback) = callbackNull funs callback)
   \<and> (readProperty d1 ''component'' = readProperty d2 ''component'' \<longrightarrow>
         processInitializer funs require env initializerBasePath inject d1
           = processInitializer funs require env initializerBasePath inject d2)"
proof -
  have c3: "(\<forall>ys. d \<noteq> JArr ys) \<and> truthy d \<longrightarrow> initArgs d = [d]"
    by (cases d) (simp_all add: initArgs_def)
  have c4: "(\<forall>ys. d \<noteq> JArr ys) \<and> \<not> truthy d \<longrightarrow> initArgs d = []"
    by (cases d) (simp_all add: initArgs_def)
  have c6: "readProperty initDescriptor ''component'' = Inr component
       \<and> require initBase component = Inr m
       \<and> selectVariant env m = Inr (IsFunction f)
       \<and> determineAsync f = Inr (async, warned)
       \<and> readProperty initDescriptor ''dependencies'' = Inr d \<longrightarrow>
         initDescriptorStep funs require env initBase app initDescriptor
           = Inr (initStep funs app f async, initArgs d)"
    by (simp add: initDescriptorStep_def)
  have c11: "readProperty d1 ''component'' = readProperty d2 ''component'' \<longrightarrow>
         processInitializer funs require env initializerBasePath inject d1
           = processInitializer funs require env initializerBasePath inject d2"
    by (simp add: processInitializer_def)
  from c3 c4 c6 c11 show ?thesis
    by (simp add: initArgs_def initStep_def)
qed

text \<open>
  No field, an array, a non-empty string and the empty string; the step made of the
  descriptor \<open>{component: 'a', dependencies: 'redis'}\<close>; and an asynchronous step called
  twice on the same array.
\<close>

theorem initArgs_from_dependencies_witness:
  "initArgs JUndefined = []
   \<and> initArgs (JArr [JNum 1, JStr ''x'']) = [JNum 1, JStr ''x'']
   \<and> initArgs (JStr ''redis'') = [JStr ''redis'']
   \<and> initArgs (JStr []) = []
   \<and> readProperty (JRec [(''component'', JStr ''db'')]) ''dependencies'' = Inr JUndefined
   \<and> initDescriptorStep anyFunction exampleModules (JStr ''development'') ''/config/initializers/''
        (JObj 0) (JRec [(''component'', JStr ''a''), (''dependencies'', JStr ''redis'')])
       = Inr (initStep anyFunction (JObj 0) (echo ''function (db) {}'') False, [JStr ''redis''])
   \<and> initStep anyFunction (JObj 0) (firing ''function (x, done) {}'' JNull) True [JStr ''redis''] (JFun 0)
       = (Signalled (Value JNull), [JStr ''redis'', JFun 0])
   \<and> initStep anyFunction (JObj 0) (firing ''function (x, done) {}'' JNull) True
        [JStr ''redis'', JFun 0] (JFun 0)
       = (Signalled (Value JNull), [JStr ''redis'', JFun 0, JFun 0])"
proof -
  let ?desc = "JRec [(''component'', JStr ''a''), (''dependencies'', JStr ''redis'')]"
  let ?m = "\<lparr> self = IsFunction (echo ''function (db) {}''),
              production = NotFunction JUndefined, development = NotFunction JUndefined \<rparr>"
  let ?g = "firing ''function (x, done) {}'' JNull"
  note t = initArgs_from_dependencies [of "[JNum 1, JStr ''x'']" "JStr ''redis''"
      "[(''component'', JStr ''db'')]" ?desc "JStr ''a''" exampleModules "''/config/initializers/''"
      ?m "JStr ''development''" "echo ''function (db) {}''" False False anyFunction "JObj 0"
      "[JStr ''redis'']" "JFun 0" ?desc ?desc "''/config/initializers/''"
      "create (JObj 0) (objectRegistry noPrototype [])"]
  have h1: "readProperty ?desc ''component'' = Inr (JStr ''a'')" by simp
  have h2: "exampleModules ''/config/initializers/'' (JStr ''a'') = Inr ?m"
    by (simp add: exampleModules_def)
  have h3: "selectVariant (JStr ''development'') ?m = Inr (IsFunction (echo ''function (db) {}''))"
    by (simp add: selectVariant_def)
  have h4: "determineAsync (echo ''function (db) {}'') = Inr (False, False)"
    by (simp add: determineAsync_def eval_defs)
  have h5: "readProperty ?desc ''dependencies'' = Inr (JStr ''redis'')" by simp
  from t h1 h2 h3 h4 h5 have
    w1: "initArgs JUndefined = []"
    and w2: "initArgs (JArr [JNum 1, JStr ''x'']) = [JNum 1, JStr ''x'']"
    and w3: "initArgs (JStr ''redis'') = [JStr ''redis'']"
    and w5: "readProperty (JRec [(''component'', JStr ''db'')]) ''dependencies'' = Inr JUndefined"
    and w6: "initDescriptorStep anyFunction exampleModules (JStr ''development'')
        ''/config/initializers/'' (JObj 0) ?desc
         = Inr (initStep anyFunction (JObj 0) (echo ''function (db) {}'') False, initArgs (JStr ''redis''))"
    by simp_all
  from initArgs_from_dependencies [of "[]" "JStr []"] have w4: "initArgs (JStr []) = []"
    by simp
  have w7: "initStep anyFunction (JObj 0) ?g True [JStr ''redis''] (JFun 0)
      = (completion (invoke ?g (JObj 0) ([JStr ''redis''] @ [JFun 0])), [JStr ''redis''] @ [JFun 0])"
    using initArgs_from_dependencies [of _ _ _ _ _ _ _ _ _ ?g _ _ anyFunction "JObj 0"
        "[JStr ''redis'']" "JFun 0"]
    by blast
  have w8: "initStep anyFunction (JObj 0) ?g True [JStr ''redis'', JFun 0] (JFun 0)
      = (completion (invoke ?g (JObj 0) ([JStr ''redis'', JFun 0] @ [JFun 0])),
         [JStr ''redis'', JFun 0] @ [JFun 0])"
    using initArgs_from_dependencies [of _ _ _ _ _ _ _ _ _ ?g _ _ anyFunction "JObj 0"
        "[JStr ''redis'', JFun 0]" "JFun 0"]
    by blast
  from w1 w2 w3 w4 w5 w6 w7 w8 show ?thesis
    by (simp add: firing_def)
qed

text \<open>
  Claim C9 as stated has every value other than an array yield the single-element list,
  and has the pipeline pass the list on. For the descriptor
  \<open>{component: 'db', dependencies: 0}\<close> the list of \<open>umbrella.init\<close> is empty, not \<open>[0]\<close>. And
  the pipeline of the initializer module makes of \<open>{component: 'c', dependencies: ['x']}\<close>
  the step of the initializer alone, whose injection calls \<open>function () {}\<close> with no
  argument: the function returns its \<open>this\<close> and arguments, and would have returned \<open>'x'\<close>
  too had it been passed.
\<close>

theorem initArgs_from_dependencies_counterexample:
  "readProperty (JRec [(''component'', JStr ''db''), (''dependencies'', JNum 0)]) ''dependencies''
     = Inr (JNum 0)
   \<and> initArgs (JNum 0) = []
   \<and> initArgs (JNum 0) \<noteq> [JNum 0]
   \<and> readProperty (JRec [(''component'', JStr ''c''), (''dependencies'', JArr [JStr ''x''])])
        ''dependencies'' = Inr (JArr [JStr ''x''])
   \<and> processInitializer anyFunction exampleModules (JStr ''development'') ''/config/initializers/''
        (create (JObj 0) (objectRegistry noPrototype []))
        (JRec [(''component'', JStr ''c''), (''dependencies'', JArr [JStr ''x''])])
       = Inr (createInitializerFunction anyFunction (create (JObj 0) (objectRegistry noPrototype []))
                (echo ''function () {}''))
   \<and> create (JObj 0) (objectRegistry noPrototype []) (echo ''function () {}'') (JBool True)
       = Inr (Returned (JArr [JObj 0]))
   \<and> invoke (echo ''function () {}'') (JObj 0) [JStr ''x''] = Return (JArr [JObj 0, JStr ''x'']) None"
  by (simp add: initArgs_def processInitializer_def exampleModules_def selectVariant_def
      create_def eval_defs)

lemma series_all_signalled:
  "\<forall>s\<in>set steps. \<exists>e. s callback = Signalled e \<and> \<not> isError e \<Longrightarrow>
   series i steps callback = ([i..<i + length steps], Done)"
proof (induction steps arbitrary: i)
  case Nil
  then show ?case by simp
next
  case (Cons s ss)
  then obtain e where e: "s callback = Signalled e" "\<not> isError e" by auto
  from Cons.prems have "\<forall>s\<in>set ss. \<exists>e. s callback = Signalled e \<and> \<not> isError e" by simp
  from Cons.IH [OF this] have "series (Suc i) ss callback = ([Suc i..<Suc i + length ss], Done)" .
  with e show ?case by (simp add: upt_rec)
qed

lemma series_done:
  "series i steps callback = (started, Done) \<Longrightarrow>
   started = [i..<i + length steps] \<and> (\<forall>s\<in>set steps. \<exists>e. s callback = Signalled e \<and> \<not> isError e)"
proof (induction steps arbitrary: i started)
  case Nil
  then show ?case by simp
next
  case (Cons s ss)
  show ?case
  proof (cases "s callback")
    case (Signalled e)
    show ?thesis
    proof (cases "isError e")
      case True
      with Signalled Cons.prems show ?thesis by simp
    next
      case False
      obtain st out where r: "series (Suc i) ss callback = (st, out)" by fastforce
      with Signalled False Cons.prems have "started = i # st" and "out = Done" by simp_all
      with r Cons.IH [of "Suc i" st] have
        "st = [Suc i..<Suc i + length ss]"
        "\<forall>s\<in>set ss. \<exists>e. s callback = Signalled e \<and> \<not> isError e"
        by simp_all
      with \<open>started = i # st\<close> Signalled False show ?thesis by (simp add: upt_rec)
    qed
  next
    case (SignalledTwice x e)
    with Cons.prems show ?thesis by simp
  next
    case (Escaped e)
    with Cons.prems show ?thesis by simp
  next
    case Pending
    with Cons.prems show ?thesis by simp
  qed
qed

text \<open>
  Claim C4. Let \<open>steps\<close> be the steps the pipeline made of the descriptors. If they are
  \<open>[A, B, C]\<close>, the completion signal of \<open>A\<close> carries no error and that of \<open>B\<close> carries the
  error \<open>b\<close>, the run starts step 0 and then step 1 and no other, and reports \<open>b\<close> as its
  completion error. For any number of steps, a run that ends \<open>Done\<close> started every step
  in order and every step's completion signal carried no error; and conversely.
\<close>

theorem pipeline_fail_fast:
  assumes "initAndMapInitializers umbrellaInit inject
             (processInitializer funs require env initializerBasePath inject) = Inr steps"
  shows "(\<forall>A B C a b. steps = [A, B, C] \<and> A callback = Signalled a \<and> \<not> isError a
             \<and> B callback = Signalled b \<and> isError b \<longrightarrow>
           initializer_exports funs require env umbrellaInit initializerBasePath inject callback
             = ([0, 1], Failed b))
       \<and> (\<forall>started.
            initializer_exports funs require env umbrellaInit initializerBasePath inject callback
              = (started, Done) \<longrightarrow>
            started = [0..<length steps]
            \<and> (\<forall>s\<in>set steps. \<exists>e. s callback = Signalled e \<and> \<not> isError e))
       \<and> ((\<forall>s\<in>set steps. \<exists>e. s callback = Signalled e \<and> \<not> isError e) \<longrightarrow>
            initializer_exports funs require env umbrellaInit initializerBasePath inject callback
              = ([0..<length steps], Done))"
proof -
  have run: "initializer_exports funs require env umbrellaInit initializerBasePath inject callback
      = series 0 steps callback"
    using assms by (simp add: initializer_exports_def)
  have c1: "\<forall>A B C a b. steps = [A, B, C] \<and> A callback = Signalled a \<and> \<not> isError a
             \<and> B callback = Signalled b \<and> isError b \<longrightarrow>
           series 0 steps callback = ([0, 1], Failed b)"
    by simp
  have c2: "\<forall>started. series 0 steps callback = (started, Done) \<longrightarrow>
            started = [0..<length steps]
            \<and> (\<forall>s\<in>set steps. \<exists>e. s callback = Signalled e \<and> \<not> isError e)"
    using series_done [of 0 steps callback] by simp
  have c3: "(\<forall>s\<in>set steps. \<exists>e. s callback = Signalled e \<and> \<not> isError e) \<longrightarrow>
            series 0 steps callback = ([0..<length steps], Done)"
    using series_all_signalled [of steps callback 0] by simp
  from c1 c2 c3 show ?thesis unfolding run by blast
qed

text \<open>
  The modules \<open>a\<close>, \<open>b\<close>, \<open>c\<close> in development: \<open>a\<close> completes, \<open>b\<close> fires its callback with
  \<open>'boom'\<close>, \<open>c\<close> is not started.
\<close>

theorem pipeline_fail_fast_witness:
  "initializer_exports anyFunction exampleModules (JStr ''development'') exampleOrder
      ''/config/initializers/'' (create (JObj 0) (objectRegistry noPrototype [(''db'', JObj 7)])) (JFun 0)
     = ([0, 1], Failed (Value (JStr ''boom'')))
   \<and> createInitializerFunction anyFunction (create (JObj 0) (objectRegistry noPrototype [(''db'', JObj 7)]))
        (echo ''function (db) {}'') (JFun 0) = Signalled (Value JNull)
   \<and> createInitializerFunction anyFunction (create (JObj 0) (objectRegistry noPrototype [(''db'', JObj 7)]))
        (firing ''function (db, done) {}'' (JStr ''boom'')) (JFun 0) = Signalled (Value (JStr ''boom''))"
proof -
  let ?inject = "create (JObj 0) (objectRegistry noPrototype [(''db'', JObj 7)])"
  let ?A = "createInitializerFunction anyFunction ?inject (echo ''function (db) {}'')"
  let ?B = "createInitializerFunction anyFunction ?inject (firing ''function (db, done) {}'' (JStr ''boom''))"
  let ?C = "createInitializerFunction anyFunction ?inject (echo ''function () {}'')"
  have order: "?inject exampleOrder (JBool True)
      = Inr (Returned (JArr [JRec [(''component'', JStr ''a'')], JRec [(''component'', JStr ''b'')],
                             JRec [(''component'', JStr ''c'')]]))"
    by (simp add: create_def exampleOrder_def getFunctionParameters_def matchSignature_def
        isWhiteSpace_def isLineTerminator_def trim_def)
  have pa: "processInitializer anyFunction exampleModules (JStr ''development'')
      ''/config/initializers/'' ?inject (JRec [(''component'', JStr ''a'')]) = Inr ?A"
    by (simp add: processInitializer_def exampleModules_def selectVariant_def)
  have pb: "processInitializer anyFunction exampleModules (JStr ''development'')
      ''/config/initializers/'' ?inject (JRec [(''component'', JStr ''b'')]) = Inr ?B"
    by (simp add: processInitializer_def exampleModules_def selectVariant_def)
  have pc: "processInitializer anyFunction exampleModules (JStr ''development'')
      ''/config/initializers/'' ?inject (JRec [(''component'', JStr ''c'')]) = Inr ?C"
    by (simp add: processInitializer_def exampleModules_def selectVariant_def)
  have steps: "initAndMapInitializers exampleOrder ?inject
      (processInitializer anyFunction exampleModules (JStr ''development'')
         ''/config/initializers/'' ?inject) = Inr [?A, ?B, ?C]"
    by (simp add: initAndMapInitializers_def order pa pb pc)
  have a: "?A (JFun 0) = Signalled (Value JNull)"
    by (simp add: createInitializerFunction_def determineAsync_def create_def eval_defs)
  have b: "?B (JFun 0) = Signalled (Value (JStr ''boom''))"
    by (simp add: createInitializerFunction_def determineAsync_def create_def wrapper_def eval_defs)
  have oka: "\<not> isError (Value JNull)" by simp
  have errb: "isError (Value (JStr ''boom''))" by simp
  from pipeline_fail_fast [OF steps, of "JFun 0"] a b oka errb
  have "initializer_exports anyFunction exampleModules (JStr ''development'') exampleOrder
      ''/config/initializers/'' ?inject (JFun 0) = ([0, 1], Failed (Value (JStr ''boom'')))"
    by blast
  with a b show ?thesis by simp
qed

end
